theory Spec2Isabelle
  imports Main
begin

section \<open>Arrays, archives and the outside world\<close>

text \<open>
  The loader of \<^verbatim>\<open>Utils/extract_features_all_ev.py\<close> (repeated word for word at the
  top of \<^verbatim>\<open>Utils/event_filter.py\<close>) reads NumPy archives. An array is its shape, its
  element type and its cells in row-major order. The cell type \<open>'a\<close> is left open.
\<close>

datatype dtype = Bool8 | Int32 | Int64 | Float32 | Float64 | Str | Object

record 'a ndarray =
  shape :: "nat list"
  dtype :: dtype
  cells :: "'a list"

text \<open>
  An opened archive (\<^verbatim>\<open>NpzFile\<close>): \<^verbatim>\<open>var in data\<close> asks whether the name is a member,
  \<^verbatim>\<open>data[var]\<close> reads the member, which raises (\<open>Inl\<close> with the message) when the member
  is damaged or may not be unpickled.
\<close>

type_synonym 'a npz = "string \<rightharpoonup> (string + 'a ndarray)"

text \<open>
  Everything the loader asks of the operating system and of NumPy:
  \<^item> \<open>listdir\<close>: \<^verbatim>\<open>os.listdir\<close>, \<open>Inl\<close> when it raises (no such directory, not a directory,
    no permission);
  \<^item> \<open>np_load\<close>: \<^verbatim>\<open>np.load\<close> used as a context manager, \<open>Inl\<close> when opening raises;
  \<^item> \<open>cpu_count\<close>: \<^verbatim>\<open>os.cpu_count()\<close>, which may be \<^verbatim>\<open>None\<close>;
  \<^item> \<open>astype_float32\<close>: the conversion of one cell to a 32-bit float, \<open>None\<close> when NumPy
    refuses the cell (text that is not a number), with \<open>float32_error\<close> the message;
  \<^item> \<open>np_object\<close>: what \<^verbatim>\<open>np.array(xs, dtype=object)\<close> does with a list of arrays that
    all have the same first dimension, or of which one has no dimension: it raises (\<open>Inl\<close>
    with the message), or it returns an object array whose first dimension is the length of
    the list; \<open>Inr\<close> gives the other dimensions and the items.
  An item of an object array is an array or a single cell.
\<close>

datatype 'a item = Array "'a ndarray" | Cell 'a

record 'a env =
  listdir :: "string \<Rightarrow> string + string list"
  np_load :: "string \<Rightarrow> string + 'a npz"
  cpu_count :: "nat option"
  astype_float32 :: "'a \<Rightarrow> 'a option"
  float32_error :: string
  np_object :: "'a ndarray list \<Rightarrow> string + nat list \<times> 'a item list"

datatype error = OSError string | ValueError string | KeyError string | IndexError string

section \<open>One file: \<^verbatim>\<open>load_variables\<close>\<close>

text \<open>
  The dictionary comprehension reads the requested names in order; the first read that
  raises ends it.
\<close>

fun read_fields :: "'a npz \<Rightarrow> string list \<Rightarrow> string + (string \<times> 'a ndarray option) list" where
  "read_fields data [] = Inr []"
| "read_fields data (var # vars) =
     (case data var of
        None \<Rightarrow>
          (case read_fields data vars of Inl e \<Rightarrow> Inl e | Inr kvs \<Rightarrow> Inr ((var, None) # kvs))
      | Some (Inl e) \<Rightarrow> Inl e
      | Some (Inr arr) \<Rightarrow>
          (case read_fields data vars of Inl e \<Rightarrow> Inl e | Inr kvs \<Rightarrow> Inr ((var, Some arr) # kvs)))"

definition all_none :: "string list \<Rightarrow> (string \<rightharpoonup> 'a ndarray option)" where
  "all_none variable_names = map_of (map (\<lambda>var. (var, None)) variable_names)"

definition load_error_line :: "string \<Rightarrow> string \<Rightarrow> string" where
  "load_error_line file e = ''Error loading '' @ file @ '': '' @ e"

text \<open>
  The task returns what it printed and its dictionary; a value \<open>Some None\<close> is a key
  bound to Python's \<^verbatim>\<open>None\<close>. A name requested twice is read twice and bound to the
  same value both times, so the dictionary is the map of the pairs read. Both the failure
  of \<^verbatim>\<open>np.load\<close> and the failure of a read end in the handler of \<^verbatim>\<open>except Exception\<close>.
\<close>

definition load_variables ::
  "'a env \<Rightarrow> string \<times> string list \<Rightarrow> string list \<times> (string \<rightharpoonup> 'a ndarray option)" where
  "load_variables env file_variables_tuple =
     (case file_variables_tuple of (file, variable_names) \<Rightarrow>
        (case np_load env file of
           Inl e \<Rightarrow> ([load_error_line file e], all_none variable_names)
         | Inr data \<Rightarrow>
             (case read_fields data variable_names of
                Inl e \<Rightarrow> ([load_error_line file e], all_none variable_names)
              | Inr kvs \<Rightarrow> ([], map_of kvs))))"

section \<open>The batch: \<^verbatim>\<open>load_variables_from_npz\<close>\<close>

subsection \<open>Choosing the files\<close>

definition endswith :: "string \<Rightarrow> string \<Rightarrow> bool" where
  "endswith s suffix =
     (length suffix \<le> length s \<and> drop (length s - length suffix) s = suffix)"

text \<open>\<^verbatim>\<open>os.path.join\<close> of two parts on POSIX.\<close>

definition path_join :: "string \<Rightarrow> string \<Rightarrow> string" where
  "path_join a b =
     (if b \<noteq> [] \<and> hd b = CHR ''/'' then b
      else if a = [] \<or> last a = CHR ''/'' then a @ b
      else a @ ''/'' @ b)"

text \<open>The slice \<^verbatim>\<open>xs[:k]\<close>: a negative \<open>k\<close> counts from the end.\<close>

definition slice_to :: "'b list \<Rightarrow> int \<Rightarrow> 'b list" where
  "slice_to xs k = (if 0 \<le> k then take (nat k) xs else take (length xs - nat (- k)) xs)"

definition npz_files :: "string \<Rightarrow> string list \<Rightarrow> string list" where
  "npz_files folder_path names =
     map (path_join folder_path) (filter (\<lambda>f. endswith f ''.npz'') names)"

definition select_files ::
  "'a env \<Rightarrow> string \<Rightarrow> int option \<Rightarrow> string list option \<Rightarrow> error + string list" where
  "select_files env folder_path num_files file_selected =
     (case listdir env folder_path of
        Inl e \<Rightarrow> Inl (OSError e)
      | Inr names \<Rightarrow>
          (let file_list = npz_files folder_path names;
               file_list = (case num_files of None \<Rightarrow> file_list | Some k \<Rightarrow> slice_to file_list k);
               file_list = (case file_selected of None \<Rightarrow> file_list | Some sel \<Rightarrow> sel)
           in Inr file_list))"

subsection \<open>The worker pool\<close>

text \<open>
  \<^verbatim>\<open>min(num_workers, os.cpu_count() or 1)\<close>; \<^verbatim>\<open>Pool\<close> raises \<^verbatim>\<open>ValueError\<close> below one
  process. \<^verbatim>\<open>imap\<close> returns the results in the order of the files; the lines the workers
  print are kept in that order too.
\<close>

definition pool_size :: "'a env \<Rightarrow> int \<Rightarrow> int" where
  "pool_size env num_workers =
     min num_workers
       (case cpu_count env of None \<Rightarrow> 1 | Some c \<Rightarrow> if c = 0 then 1 else int c)"

subsection \<open>From a list of dictionaries to a dictionary of lists\<close>

definition append_entry ::
  "(string \<rightharpoonup> 'a ndarray option) \<Rightarrow> (string \<rightharpoonup> 'a ndarray list) \<Rightarrow> string
   \<Rightarrow> error + (string \<rightharpoonup> 'a ndarray list)" where
  "append_entry entry data_dict var =
     (case entry var of
        None \<Rightarrow> Inl (KeyError var)
      | Some None \<Rightarrow> Inr data_dict
      | Some (Some arr) \<Rightarrow>
          (case data_dict var of
             None \<Rightarrow> Inl (KeyError var)
           | Some l \<Rightarrow> Inr (data_dict(var \<mapsto> l @ [arr]))))"

fun collect_entry ::
  "(string \<rightharpoonup> 'a ndarray option) \<Rightarrow> string list \<Rightarrow> (string \<rightharpoonup> 'a ndarray list)
   \<Rightarrow> error + (string \<rightharpoonup> 'a ndarray list)" where
  "collect_entry entry [] data_dict = Inr data_dict"
| "collect_entry entry (var # vars) data_dict =
     (case append_entry entry data_dict var of
        Inl e \<Rightarrow> Inl e
      | Inr d \<Rightarrow> collect_entry entry vars d)"

fun collect ::
  "(string \<rightharpoonup> 'a ndarray option) list \<Rightarrow> string list \<Rightarrow> (string \<rightharpoonup> 'a ndarray list)
   \<Rightarrow> error + (string \<rightharpoonup> 'a ndarray list)" where
  "collect [] variable_names data_dict = Inr data_dict"
| "collect (entry # data_list) variable_names data_dict =
     (case collect_entry entry variable_names data_dict of
        Inl e \<Rightarrow> Inl e
      | Inr d \<Rightarrow> collect data_list variable_names d)"

definition empty_lists :: "string list \<Rightarrow> (string \<rightharpoonup> 'a ndarray list)" where
  "empty_lists variable_names = map_of (map (\<lambda>var. (var, [])) variable_names)"

subsection \<open>From lists to arrays\<close>

text \<open>
  What a key of the table is bound to in the end:
  \<^item> \<open>Uniform a\<close>: the array \<^verbatim>\<open>np.array(xs, dtype=np.float32)\<close>;
  \<^item> \<open>Ragged xs\<close>: the one-dimensional object array whose items are the arrays \<open>xs\<close>;
  \<^item> \<open>ObjectArray dims items\<close>: any other object array, by its shape and its items;
  \<^item> \<open>Unconverted xs\<close>: the Python list \<open>xs\<close> itself, left in place because the
    constructor raised and the handler only printed.
\<close>

datatype 'a column =
    Uniform "'a ndarray"
  | Ragged "'a ndarray list"
  | ObjectArray "nat list" "'a item list"
  | Unconverted "'a ndarray list"

definition np_array_float32 :: "'a env \<Rightarrow> 'a ndarray list \<Rightarrow> string + 'a ndarray" where
  "np_array_float32 env xs =
     (case xs of
        [] \<Rightarrow> Inr \<lparr>shape = [0], dtype = Float32, cells = []\<rparr>
      | x # _ \<Rightarrow>
          if list_all (\<lambda>y. shape y = shape x) xs then
            (case those (map (astype_float32 env) (concat (map cells xs))) of
               None \<Rightarrow> Inl (float32_error env)
             | Some cs \<Rightarrow> Inr \<lparr>shape = length xs # shape x, dtype = Float32, cells = cs\<rparr>)
          else Inl ''setting an array element with a sequence'')"

text \<open>
  \<^verbatim>\<open>np.array(xs, dtype=object)\<close> looks for the dimensions the arrays have in common. From
  the empty list it makes the empty array. When every array has a first dimension and the
  first dimensions are not all the same, the arrays have no dimension in common and become
  the items of a one-dimensional array. Otherwise NumPy copies each array into a slot shaped
  by the common dimensions: most often that raises (shapes \<open>(2,3)\<close> and \<open>(2,4)\<close>), sometimes
  it yields an array of cells (shapes \<open>(1,)\<close> and \<open>(1,1)\<close> give a \<open>(2,1)\<close> array of the two
  cells); that part is \<open>np_object\<close>.
\<close>

definition first_dims_differ :: "'a ndarray list \<Rightarrow> bool" where
  "first_dims_differ xs =
     (list_all (\<lambda>x. shape x \<noteq> []) xs \<and> 1 < card (set (map (\<lambda>x. take 1 (shape x)) xs)))"

definition np_array_object :: "'a env \<Rightarrow> 'a ndarray list \<Rightarrow> string + 'a column" where
  "np_array_object env xs =
     (if xs = [] then Inr (Ragged [])
      else if first_dims_differ xs then Inr (Ragged xs)
      else case np_object env xs of
             Inl e \<Rightarrow> Inl e
           | Inr (dims, items) \<Rightarrow> Inr (ObjectArray (length xs # dims) items))"

definition process_error_line :: "string \<Rightarrow> string \<Rightarrow> string" where
  "process_error_line var e = ''Error processing variable '' @ var @ '': '' @ e"

definition convert_column :: "'a env \<Rightarrow> string \<Rightarrow> 'a ndarray list \<Rightarrow> string list \<times> 'a column" where
  "convert_column env var xs =
     (let sample_shape = set (map shape xs) in
      if card sample_shape = 1 then
        (case np_array_float32 env xs of
           Inr a \<Rightarrow> ([], Uniform a)
         | Inl e \<Rightarrow> ([process_error_line var e], Unconverted xs))
      else
        (case np_array_object env xs of
           Inr c \<Rightarrow> ([], c)
         | Inl e \<Rightarrow> ([process_error_line var e], Unconverted xs)))"

text \<open>
  A dictionary keeps its keys in the order of their first insertion: \<open>dict_keys\<close> is the
  order in which \<^verbatim>\<open>for var in data_dict\<close> visits them.
\<close>

fun dict_keys :: "string list \<Rightarrow> string list" where
  "dict_keys [] = []"
| "dict_keys (var # vars) = var # filter (\<lambda>v. v \<noteq> var) (dict_keys vars)"

definition convert_dict ::
  "'a env \<Rightarrow> string list \<Rightarrow> (string \<rightharpoonup> 'a ndarray list) \<Rightarrow> string list \<times> (string \<rightharpoonup> 'a column)" where
  "convert_dict env keys data_dict =
     (concat (map (\<lambda>var. case data_dict var of None \<Rightarrow> [] | Some xs \<Rightarrow> fst (convert_column env var xs)) keys),
      (\<lambda>var. map_option (\<lambda>xs. snd (convert_column env var xs)) (data_dict var)))"

subsection \<open>The loader\<close>

text \<open>
  Lines 39 to 52: one task per file, then the per-file dictionaries are merged. The result is
  what the workers printed and the dictionary of lists (or the exception of the merge).
\<close>

definition gather ::
  "'a env \<Rightarrow> string list \<Rightarrow> string list
   \<Rightarrow> string list \<times> (error + (string \<rightharpoonup> 'a ndarray list))" where
  "gather env variable_names file_list =
     (let results = map (\<lambda>file. load_variables env (file, variable_names)) file_list;
          data_list = map snd results
      in (concat (map fst results),
          collect data_list variable_names (empty_lists variable_names)))"

definition load_variables_from_npz ::
  "'a env \<Rightarrow> string \<Rightarrow> string list \<Rightarrow> int \<Rightarrow> int option \<Rightarrow> string list option
   \<Rightarrow> error + string list \<times> (string \<rightharpoonup> 'a column)" where
  "load_variables_from_npz env folder_path variable_names num_workers num_files file_selected =
     (case select_files env folder_path num_files file_selected of
        Inl e \<Rightarrow> Inl e
      | Inr file_list \<Rightarrow>
          if pool_size env num_workers < 1
          then Inl (ValueError ''Number of processes must be at least 1'')
          else
            (case gather env variable_names file_list of
               (printed, Inl e) \<Rightarrow> Inl e
             | (printed, Inr data_dict) \<Rightarrow>
                 (let (lines, table) = convert_dict env (dict_keys variable_names) data_dict
                  in Inr (printed @ lines, table))))"

text \<open>
  \<^verbatim>\<open>len(column)\<close>: the first dimension of an array, the length of a list. A stacked
  column always has a first dimension, the number of arrays stacked.
\<close>

definition len :: "'a column \<Rightarrow> nat" where
  "len c =
     (case c of
        Uniform a \<Rightarrow> (case shape a of [] \<Rightarrow> 0 | n # _ \<Rightarrow> n)
      | Ragged xs \<Rightarrow> length xs
      | ObjectArray dims items \<Rightarrow> (case dims of [] \<Rightarrow> 0 | n # _ \<Rightarrow> n)
      | Unconverted xs \<Rightarrow> length xs)"

section \<open>The category filter: \<^verbatim>\<open>create_masked_dict\<close>\<close>

text \<open>
  \<^verbatim>\<open>data_filter\<close> maps a column name to a one-dimensional array of numbers. The cells
  are of any type \<open>'a\<close> that has the numerals and their negatives, with \<open>0\<close> and \<open>1\<close>
  distinct: the integers, or the reals for the 32-bit floats the loader stores.
\<close>

type_synonym 'a data_filter = "string \<rightharpoonup> 'a list"

definition getitem :: "'a data_filter \<Rightarrow> string \<Rightarrow> error + 'a list" where
  "getitem data_filter key =
     (case data_filter key of None \<Rightarrow> Inl (KeyError key) | Some col \<Rightarrow> Inr col)"

text \<open>\<^verbatim>\<open>col == v\<close>, cell by cell.\<close>

definition eq_scalar :: "'a list \<Rightarrow> 'a \<Rightarrow> bool list" where
  "eq_scalar col v = map (\<lambda>x. x = v) col"

text \<open>
  \<^verbatim>\<open>a & b\<close> and \<^verbatim>\<open>a | b\<close> on one-dimensional arrays: equal lengths combine cell by
  cell, a single cell is broadcast, any other pair of lengths raises.
\<close>

definition broadcast2 ::
  "(bool \<Rightarrow> bool \<Rightarrow> bool) \<Rightarrow> bool list \<Rightarrow> bool list \<Rightarrow> error + bool list" where
  "broadcast2 f a b =
     (if length a = length b then Inr (map (\<lambda>(x, y). f x y) (zip a b))
      else if length a = 1 then Inr (map (f (hd a)) b)
      else if length b = 1 then Inr (map (\<lambda>x. f x (hd b)) a)
      else Inl (ValueError ''operands could not be broadcast together''))"

text \<open>\<^verbatim>\<open>col[mask]\<close> with a Boolean mask: the lengths must agree.\<close>

definition bool_index :: "'a list \<Rightarrow> bool list \<Rightarrow> error + 'a list" where
  "bool_index col msk =
     (if length msk = length col then Inr (map fst (filter snd (zip col msk)))
      else Inl (IndexError ''boolean index did not match indexed array''))"

text \<open>
  \<^verbatim>\<open>(data_filter["is_cc"] == 1) & ((data_filter["in_neutrino_pdg"] == c) | (data_filter["in_neutrino_pdg"] == -c))\<close>
\<close>

definition cc_flavor_mask :: "('a :: ring_1) data_filter \<Rightarrow> 'a \<Rightarrow> error + bool list" where
  "cc_flavor_mask data_filter c =
     (case getitem data_filter ''is_cc'' of
        Inl e \<Rightarrow> Inl e
      | Inr cc \<Rightarrow>
          (case getitem data_filter ''in_neutrino_pdg'' of
             Inl e \<Rightarrow> Inl e
           | Inr pdg \<Rightarrow>
               (case broadcast2 (\<or>) (eq_scalar pdg c) (eq_scalar pdg (- c)) of
                  Inl e \<Rightarrow> Inl e
                | Inr flavor \<Rightarrow> broadcast2 (\<and>) (eq_scalar cc 1) flavor)))"

definition is_cc_mask :: "'a data_filter \<Rightarrow> 'a \<Rightarrow> error + bool list" where
  "is_cc_mask data_filter v =
     (case getitem data_filter ''is_cc'' of Inl e \<Rightarrow> Inl e | Inr cc \<Rightarrow> Inr (eq_scalar cc v))"

text \<open>The chain of branches that binds \<^verbatim>\<open>mask\<close>; a flag is true when it is not zero.\<close>

definition select_mask ::
  "('a :: ring_1) data_filter \<Rightarrow> int \<Rightarrow> int \<Rightarrow> int \<Rightarrow> int \<Rightarrow> error + bool list" where
  "select_mask data_filter is_cc is_nu_e is_nu_mu is_nu_tau =
     (if is_cc = 1 then
        if is_nu_e \<noteq> 0 then cc_flavor_mask data_filter 12
        else if is_nu_mu \<noteq> 0 then cc_flavor_mask data_filter 14
        else if is_nu_tau \<noteq> 0 then cc_flavor_mask data_filter 16
        else is_cc_mask data_filter 1
      else is_cc_mask data_filter 0)"

text \<open>
  The result is what was printed and then either the exception raised or the dictionary
  returned; \<open>Map.empty\<close> is \<^verbatim>\<open>{}\<close>.
\<close>

definition create_masked_dict ::
  "('a :: ring_1) data_filter \<Rightarrow> int \<Rightarrow> int \<Rightarrow> int \<Rightarrow> int
   \<Rightarrow> string list \<times> (error + (string \<rightharpoonup> 'a list))" where
  "create_masked_dict data_filter is_cc is_nu_e is_nu_mu is_nu_tau =
     (let printed =
            (if is_cc = 1 \<and> (is_nu_e = 0 \<and> is_nu_mu = 0 \<and> is_nu_tau = 0)
             then [''Error: When is_cc is 1, at least one of the neutrino types should be 1.'']
             else [])
      in if is_nu_e + is_nu_mu + is_nu_tau > 1 then
           (printed @ [''Error: Only one neutrino type can be selected.''], Inr Map.empty)
         else
           (printed,
            case select_mask data_filter is_cc is_nu_e is_nu_mu is_nu_tau of
              Inl e \<Rightarrow> Inl e
            | Inr msk \<Rightarrow>
                (case getitem data_filter ''run_number'' of
                   Inl e \<Rightarrow> Inl e
                 | Inr run \<Rightarrow>
                     (case bool_index run msk of
                        Inl e \<Rightarrow> Inl e
                      | Inr run_sel \<Rightarrow>
                          (case getitem data_filter ''event_id'' of
                             Inl e \<Rightarrow> Inl e
                           | Inr ev \<Rightarrow>
                               (case bool_index ev msk of
                                  Inl e \<Rightarrow> Inl e
                                | Inr ev_sel \<Rightarrow>
                                    Inr [''run_number'' \<mapsto> run_sel, ''event_id'' \<mapsto> ev_sel]))))))"

section \<open>Example data\<close>

text \<open>
  A table of three events: two charged-current events (a muon neutrino and an electron
  antineutrino) of run 100 and one neutral-current event of run 101.
\<close>

definition demo_filter :: "int data_filter" where
  "demo_filter =
     [''run_number'' \<mapsto> [100, 100, 101], ''event_id'' \<mapsto> [1, 2, 3],
      ''is_cc'' \<mapsto> [1, 1, 0], ''in_neutrino_pdg'' \<mapsto> [14, - 12, 14]]"

text \<open>
  A directory with two readable archives, a text file and an archive that cannot be opened.
  Archive \<open>a\<close> is a charged-current muon-neutrino event with two hits, archive \<open>b\<close> a
  neutral-current event with three hits and no \<open>in_neutrino_pdg\<close> member. Cells are integers;
  every one of them converts to a 32-bit float.
\<close>

definition archive_a :: "int npz" where
  "archive_a =
     [''run_number'' \<mapsto> Inr \<lparr>shape = [], dtype = Int64, cells = [100]\<rparr>,
      ''is_cc'' \<mapsto> Inr \<lparr>shape = [], dtype = Int64, cells = [1]\<rparr>,
      ''in_neutrino_pdg'' \<mapsto> Inr \<lparr>shape = [], dtype = Int64, cells = [14]\<rparr>,
      ''hits'' \<mapsto> Inr \<lparr>shape = [2], dtype = Float64, cells = [5, 6]\<rparr>]"

definition archive_b :: "int npz" where
  "archive_b =
     [''run_number'' \<mapsto> Inr \<lparr>shape = [], dtype = Int64, cells = [101]\<rparr>,
      ''is_cc'' \<mapsto> Inr \<lparr>shape = [], dtype = Int64, cells = [0]\<rparr>,
      ''hits'' \<mapsto> Inr \<lparr>shape = [3], dtype = Float64, cells = [7, 8, 9]\<rparr>]"

text \<open>
  A second directory, \<open>ones\<close>, holds two archives whose member \<open>w\<close> has the shapes \<open>(1,)\<close>
  and \<open>(1,1)\<close>. NumPy makes of these two arrays a \<open>(2,1)\<close> object array of their two cells.
\<close>

definition archive_p :: "int npz" where
  "archive_p = [''w'' \<mapsto> Inr \<lparr>shape = [1], dtype = Float64, cells = [5]\<rparr>]"

definition archive_q :: "int npz" where
  "archive_q = [''w'' \<mapsto> Inr \<lparr>shape = [1, 1], dtype = Float64, cells = [7]\<rparr>]"

definition demo_env :: "int env" where
  "demo_env =
     \<lparr>listdir = (\<lambda>p. if p = ''data'' then Inr [''a.npz'', ''notes.txt'', ''b.npz'', ''c.npz'']
                     else if p = ''ones'' then Inr [''p.npz'', ''q.npz'']
                     else Inl ''No such file or directory''),
      np_load = (\<lambda>f. if f = ''data/a.npz'' then Inr archive_a
                     else if f = ''data/b.npz'' then Inr archive_b
                     else if f = ''ones/p.npz'' then Inr archive_p
                     else if f = ''ones/q.npz'' then Inr archive_q
                     else Inl ''File is not a zip file''),
      cpu_count = Some 4,
      astype_float32 = Some,
      float32_error = ''could not convert string to float'',
      np_object = (\<lambda>xs. if map shape xs = [[1], [1, 1]]
                       then Inr ([1], map Cell (concat (map cells xs)))
                       else Inl ''could not broadcast input array'')\<rparr>"

section \<open>Notation for the statements\<close>

text \<open>
  \<open>present entry var\<close> is what the test \<^verbatim>\<open>entry[var] is not None\<close> lets through: the array
  of the entry under \<open>var\<close> as a one-element list, or nothing.
\<close>

abbreviation present :: "('k \<rightharpoonup> 'v option) \<Rightarrow> 'k \<Rightarrow> 'v list" where
  "present entry var \<equiv> (case entry var of Some (Some arr) \<Rightarrow> [arr] | _ \<Rightarrow> [])"

section \<open>Properties of the category filter\<close>

lemma eq_scalar_length: "length (eq_scalar col v) = length col"
  by (simp add: eq_scalar_def)

lemma broadcast2_same:
  "length a = length b \<Longrightarrow> broadcast2 f a b = Inr (map (\<lambda>(x, y). f x y) (zip a b))"
  by (simp add: broadcast2_def)

lemma flavor_cells:
  "map (\<lambda>(x, y). x \<or> y) (zip (eq_scalar pdg c) (eq_scalar pdg d)) = map (\<lambda>p. p = c \<or> p = d) pdg"
  by (induction pdg) (simp_all add: eq_scalar_def)

lemma cc_cells:
  "length cc = length pdg \<Longrightarrow>
   map (\<lambda>(x, y). x \<and> y) (zip (eq_scalar cc v) (map Q pdg)) = map (\<lambda>(c, p). c = v \<and> Q p) (zip cc pdg)"
  by (induction cc pdg rule: list_induct2) (simp_all add: eq_scalar_def)

lemma cc_flavor_mask_aligned:
  assumes "data_filter ''is_cc'' = Some cc" "data_filter ''in_neutrino_pdg'' = Some pdg"
    "length cc = length pdg"
  shows "cc_flavor_mask data_filter c =
         Inr (map (\<lambda>(x, p). x = 1 \<and> (p = c \<or> p = - c)) (zip cc pdg))"
  using assms
  by (simp add: cc_flavor_mask_def getitem_def broadcast2_same eq_scalar_length flavor_cells cc_cells)

lemma is_cc_mask_aligned:
  assumes "data_filter ''is_cc'' = Some cc" "length cc = length (pdg :: 'b list)"
  shows "is_cc_mask data_filter v = Inr (map (\<lambda>(x, p). x = v) (zip cc pdg))"
proof -
  have "eq_scalar cc v = map (\<lambda>(x, p). x = v) (zip cc pdg)"
    using assms(2) by (induction cc pdg rule: list_induct2) (simp_all add: eq_scalar_def)
  then show ?thesis using assms(1) by (simp add: is_cc_mask_def getitem_def)
qed

lemma bool_index_run:
  assumes "length cc = length pdg" "length pdg = length run" "length run = length ev"
  shows "bool_index run (map (\<lambda>(c, p). P c p) (zip cc pdg)) =
         Inr (map (\<lambda>(c, p, r, e). r) (filter (\<lambda>(c, p, r, e). P c p) (zip cc (zip pdg (zip run ev)))))"
proof -
  have "map fst (filter snd (zip run (map (\<lambda>(c, p). P c p) (zip cc pdg)))) =
        map (\<lambda>(c, p, r, e). r) (filter (\<lambda>(c, p, r, e). P c p) (zip cc (zip pdg (zip run ev))))"
    using assms by (induction cc pdg run ev rule: list_induct4) simp_all
  then show ?thesis using assms by (simp add: bool_index_def)
qed

lemma bool_index_ev:
  assumes "length cc = length pdg" "length pdg = length run" "length run = length ev"
  shows "bool_index ev (map (\<lambda>(c, p). P c p) (zip cc pdg)) =
         Inr (map (\<lambda>(c, p, r, e). e) (filter (\<lambda>(c, p, r, e). P c p) (zip cc (zip pdg (zip run ev)))))"
proof -
  have "map fst (filter snd (zip ev (map (\<lambda>(c, p). P c p) (zip cc pdg)))) =
        map (\<lambda>(c, p, r, e). e) (filter (\<lambda>(c, p, r, e). P c p) (zip cc (zip pdg (zip run ev))))"
    using assms by (induction cc pdg run ev rule: list_induct4) simp_all
  then show ?thesis using assms by (simp add: bool_index_def)
qed

lemma masked_rows:
  assumes "data_filter ''run_number'' = Some run" "data_filter ''event_id'' = Some ev"
    "length cc = length pdg" "length pdg = length run" "length run = length ev"
    "select_mask data_filter is_cc e m t = Inr (map (\<lambda>(c, p). P c p) (zip cc pdg))"
    "\<not> e + m + t > 1"
  shows "snd (create_masked_dict data_filter is_cc e m t) =
     Inr [''run_number'' \<mapsto> map (\<lambda>(c, p, r, e). r) (filter (\<lambda>(c, p, r, e). P c p) (zip cc (zip pdg (zip run ev)))),
          ''event_id'' \<mapsto> map (\<lambda>(c, p, r, e). e) (filter (\<lambda>(c, p, r, e). P c p) (zip cc (zip pdg (zip run ev))))]"
  using assms(1,2,6,7) bool_index_run[OF assms(3,4,5), of P] bool_index_ev[OF assms(3,4,5), of P]
  by (simp add: create_masked_dict_def getitem_def Let_def)

lemma masked_results:
  assumes "data_filter ''is_cc'' = Some cc" and "data_filter ''in_neutrino_pdg'' = Some pdg"
    and "data_filter ''run_number'' = Some run" and "data_filter ''event_id'' = Some ev"
    and "length cc = length pdg" and "length pdg = length run" and "length run = length ev"
  shows
    "(let rows = zip cc (zip pdg (zip run ev));
          selected = (\<lambda>P. Inr [''run_number'' \<mapsto> map (\<lambda>(c, p, r, e). r) (filter (\<lambda>(c, p, r, e). P c p) rows),
                               ''event_id'' \<mapsto> map (\<lambda>(c, p, r, e). e) (filter (\<lambda>(c, p, r, e). P c p) rows)])
      in create_masked_dict data_filter 1 1 0 0 = ([], selected (\<lambda>c p. c = 1 \<and> (p = 12 \<or> p = - 12)))
       \<and> create_masked_dict data_filter 1 0 1 0 = ([], selected (\<lambda>c p. c = 1 \<and> (p = 14 \<or> p = - 14)))
       \<and> create_masked_dict data_filter 1 0 0 1 = ([], selected (\<lambda>c p. c = 1 \<and> (p = 16 \<or> p = - 16)))
       \<and> create_masked_dict data_filter 1 0 0 0 =
           ([''Error: When is_cc is 1, at least one of the neutrino types should be 1.''],
            selected (\<lambda>c p. c = 1))
       \<and> (is_nu_e + is_nu_mu + is_nu_tau \<le> 1 \<longrightarrow>
            create_masked_dict data_filter 0 is_nu_e is_nu_mu is_nu_tau = ([], selected (\<lambda>c p. c = 0))))"
proof -
  note al = assms(5,6,7)
  have e: "snd (create_masked_dict data_filter 1 1 0 0) = Inr [''run_number'' \<mapsto> map (\<lambda>(c, p, r, e). r) (filter (\<lambda>(c, p, r, e). c = 1 \<and> (p = 12 \<or> p = - 12)) (zip cc (zip pdg (zip run ev)))),
          ''event_id'' \<mapsto> map (\<lambda>(c, p, r, e). e) (filter (\<lambda>(c, p, r, e). c = 1 \<and> (p = 12 \<or> p = - 12)) (zip cc (zip pdg (zip run ev))))]"
    by (rule masked_rows[of data_filter run ev cc pdg, OF assms(3,4) al, where P = "\<lambda>c p. c = 1 \<and> (p = 12 \<or> p = - 12)"])
       (simp_all add: select_mask_def cc_flavor_mask_aligned[of data_filter cc pdg, OF assms(1,2,5)])
  have m: "snd (create_masked_dict data_filter 1 0 1 0) = Inr [''run_number'' \<mapsto> map (\<lambda>(c, p, r, e). r) (filter (\<lambda>(c, p, r, e). c = 1 \<and> (p = 14 \<or> p = - 14)) (zip cc (zip pdg (zip run ev)))),
          ''event_id'' \<mapsto> map (\<lambda>(c, p, r, e). e) (filter (\<lambda>(c, p, r, e). c = 1 \<and> (p = 14 \<or> p = - 14)) (zip cc (zip pdg (zip run ev))))]"
    by (rule masked_rows[of data_filter run ev cc pdg, OF assms(3,4) al, where P = "\<lambda>c p. c = 1 \<and> (p = 14 \<or> p = - 14)"])
       (simp_all add: select_mask_def cc_flavor_mask_aligned[of data_filter cc pdg, OF assms(1,2,5)])
  have t: "snd (create_masked_dict data_filter 1 0 0 1) = Inr [''run_number'' \<mapsto> map (\<lambda>(c, p, r, e). r) (filter (\<lambda>(c, p, r, e). c = 1 \<and> (p = 16 \<or> p = - 16)) (zip cc (zip pdg (zip run ev)))),
          ''event_id'' \<mapsto> map (\<lambda>(c, p, r, e). e) (filter (\<lambda>(c, p, r, e). c = 1 \<and> (p = 16 \<or> p = - 16)) (zip cc (zip pdg (zip run ev))))]"
    by (rule masked_rows[of data_filter run ev cc pdg, OF assms(3,4) al, where P = "\<lambda>c p. c = 1 \<and> (p = 16 \<or> p = - 16)"])
       (simp_all add: select_mask_def cc_flavor_mask_aligned[of data_filter cc pdg, OF assms(1,2,5)])
  have a: "snd (create_masked_dict data_filter 1 0 0 0) = Inr [''run_number'' \<mapsto> map (\<lambda>(c, p, r, e). r) (filter (\<lambda>(c, p, r, e). c = 1) (zip cc (zip pdg (zip run ev)))),
          ''event_id'' \<mapsto> map (\<lambda>(c, p, r, e). e) (filter (\<lambda>(c, p, r, e). c = 1) (zip cc (zip pdg (zip run ev))))]"
    by (rule masked_rows[of data_filter run ev cc pdg, OF assms(3,4) al, where P = "\<lambda>c p. c = 1"])
       (simp_all add: select_mask_def is_cc_mask_aligned[of data_filter cc pdg, OF assms(1,5)])
  have n: "snd (create_masked_dict data_filter 0 is_nu_e is_nu_mu is_nu_tau) = Inr [''run_number'' \<mapsto> map (\<lambda>(c, p, r, e). r) (filter (\<lambda>(c, p, r, e). c = 0) (zip cc (zip pdg (zip run ev)))),
          ''event_id'' \<mapsto> map (\<lambda>(c, p, r, e). e) (filter (\<lambda>(c, p, r, e). c = 0) (zip cc (zip pdg (zip run ev))))]"
    if "is_nu_e + is_nu_mu + is_nu_tau \<le> 1"
    using that
    by (intro masked_rows[of data_filter run ev cc pdg, OF assms(3,4) al, where P = "\<lambda>c p. c = 0"])
       (simp_all add: select_mask_def is_cc_mask_aligned[of data_filter cc pdg, OF assms(1,5)])
  have f1: "fst (create_masked_dict data_filter 1 1 0 0) = []"
    "fst (create_masked_dict data_filter 1 0 1 0) = []"
    "fst (create_masked_dict data_filter 1 0 0 1) = []"
    "fst (create_masked_dict data_filter 1 0 0 0) = [''Error: When is_cc is 1, at least one of the neutrino types should be 1.'']"
    by (simp_all add: create_masked_dict_def)
  have f0: "fst (create_masked_dict data_filter 0 is_nu_e is_nu_mu is_nu_tau) = []"
    if "is_nu_e + is_nu_mu + is_nu_tau \<le> 1"
    using that by (simp add: create_masked_dict_def)
  show ?thesis
    unfolding Let_def using e m t a n f0 f1 by (simp add: prod_eq_iff)
qed

lemma select_mask_nc:
  "data_filter ''is_cc'' = Some cc \<Longrightarrow>
   select_mask data_filter 0 is_nu_e is_nu_mu is_nu_tau = Inr (map (\<lambda>c. c = 0) cc)"
  by (simp add: select_mask_def is_cc_mask_def getitem_def eq_scalar_def)

lemma select_mask_cc_any:
  "data_filter ''is_cc'' = Some cc \<Longrightarrow>
   select_mask data_filter 1 0 0 0 = Inr (map (\<lambda>c. c = 1) cc)"
  by (simp add: select_mask_def is_cc_mask_def getitem_def eq_scalar_def)

text \<open>
  Claim C3. On every table that has the four columns:
  \<^item> with the charged-current flag at 0 the mask is true exactly at the rows where \<open>is_cc\<close> is
    0, whatever the three flavor flags are;
  \<^item> with the flag set and no flavor requested the mask is true exactly at the rows where
    \<open>is_cc\<close> is 1;
  \<^item> with the flag set and one flavor requested, when \<open>is_cc\<close> and \<open>in_neutrino_pdg\<close> have the
    same length, the mask is true exactly at the rows where \<open>is_cc\<close> is 1 and
    \<open>in_neutrino_pdg\<close> is the flavor's PDG code in either sign (12, 14, 16);
  \<^item> when the four columns have the same length, the dictionary returned holds the run
    numbers and event identifiers of exactly those rows (for the flag at 0: whenever a mask
    is produced, that is when the flavor flags sum to at most 1).
\<close>

theorem create_masked_dict_masks:
  assumes "data_filter ''is_cc'' = Some cc" and "data_filter ''in_neutrino_pdg'' = Some pdg"
    and "data_filter ''run_number'' = Some run" and "data_filter ''event_id'' = Some ev"
  shows
    "select_mask data_filter 0 is_nu_e is_nu_mu is_nu_tau = Inr (map (\<lambda>c. c = 0) cc)
   \<and> select_mask data_filter 1 0 0 0 = Inr (map (\<lambda>c. c = 1) cc)
   \<and> (length cc = length pdg \<longrightarrow>
         select_mask data_filter 1 1 0 0 =
           Inr (map (\<lambda>(c, p). c = 1 \<and> (p = 12 \<or> p = - 12)) (zip cc pdg))
       \<and> select_mask data_filter 1 0 1 0 =
           Inr (map (\<lambda>(c, p). c = 1 \<and> (p = 14 \<or> p = - 14)) (zip cc pdg))
       \<and> select_mask data_filter 1 0 0 1 =
           Inr (map (\<lambda>(c, p). c = 1 \<and> (p = 16 \<or> p = - 16)) (zip cc pdg)))
   \<and> (length cc = length pdg \<and> length pdg = length run \<and> length run = length ev \<longrightarrow>
        (let rows = zip cc (zip pdg (zip run ev));
             selected = (\<lambda>P. Inr [''run_number'' \<mapsto> map (\<lambda>(c, p, r, e). r) (filter (\<lambda>(c, p, r, e). P c p) rows),
                                  ''event_id'' \<mapsto> map (\<lambda>(c, p, r, e). e) (filter (\<lambda>(c, p, r, e). P c p) rows)])
         in create_masked_dict data_filter 1 1 0 0 = ([], selected (\<lambda>c p. c = 1 \<and> (p = 12 \<or> p = - 12)))
          \<and> create_masked_dict data_filter 1 0 1 0 = ([], selected (\<lambda>c p. c = 1 \<and> (p = 14 \<or> p = - 14)))
          \<and> create_masked_dict data_filter 1 0 0 1 = ([], selected (\<lambda>c p. c = 1 \<and> (p = 16 \<or> p = - 16)))
          \<and> create_masked_dict data_filter 1 0 0 0 =
              ([''Error: When is_cc is 1, at least one of the neutrino types should be 1.''],
               selected (\<lambda>c p. c = 1))
          \<and> (is_nu_e + is_nu_mu + is_nu_tau \<le> 1 \<longrightarrow>
               create_masked_dict data_filter 0 is_nu_e is_nu_mu is_nu_tau =
                 ([], selected (\<lambda>c p. c = 0)))))"
proof -
  have flav: "select_mask data_filter 1 1 0 0 =
           Inr (map (\<lambda>(c, p). c = 1 \<and> (p = 12 \<or> p = - 12)) (zip cc pdg))
       \<and> select_mask data_filter 1 0 1 0 =
           Inr (map (\<lambda>(c, p). c = 1 \<and> (p = 14 \<or> p = - 14)) (zip cc pdg))
       \<and> select_mask data_filter 1 0 0 1 =
           Inr (map (\<lambda>(c, p). c = 1 \<and> (p = 16 \<or> p = - 16)) (zip cc pdg))"
    if "length cc = length pdg"
    by (simp add: select_mask_def cc_flavor_mask_aligned [of data_filter cc pdg, OF assms(1,2) that])
  show ?thesis
    using select_mask_nc [of data_filter cc, OF assms(1)]
      select_mask_cc_any [of data_filter cc, OF assms(1)] flav
      masked_results [of data_filter cc pdg run ev is_nu_e is_nu_mu is_nu_tau, OF assms]
    by blast
qed

theorem create_masked_dict_masks_witness:
  "select_mask demo_filter 0 1 1 0 = Inr [False, False, True]
   \<and> select_mask demo_filter 1 0 0 0 = Inr [True, True, False]
   \<and> select_mask demo_filter 1 1 0 0 = Inr [False, True, False]
   \<and> select_mask demo_filter 1 0 1 0 = Inr [True, False, False]
   \<and> select_mask demo_filter 1 0 0 1 = Inr [False, False, False]
   \<and> create_masked_dict demo_filter 1 1 0 0 = ([], Inr [''run_number'' \<mapsto> [100], ''event_id'' \<mapsto> [2]])
   \<and> create_masked_dict demo_filter 1 0 1 0 = ([], Inr [''run_number'' \<mapsto> [100], ''event_id'' \<mapsto> [1]])
   \<and> create_masked_dict demo_filter 1 0 0 1 = ([], Inr [''run_number'' \<mapsto> [], ''event_id'' \<mapsto> []])
   \<and> create_masked_dict demo_filter 1 0 0 0 =
        ([''Error: When is_cc is 1, at least one of the neutrino types should be 1.''],
         Inr [''run_number'' \<mapsto> [100, 100], ''event_id'' \<mapsto> [1, 2]])
   \<and> create_masked_dict demo_filter 0 0 0 1 = ([], Inr [''run_number'' \<mapsto> [101], ''event_id'' \<mapsto> [3]])"
proof -
  note t = create_masked_dict_masks [of demo_filter "[1, 1, 0]" "[14, - 12, 14]"
      "[100, 100, 101]" "[1, 2, 3]"]
  show ?thesis
    using t [of 1 1 0] t [of 0 0 1] by (simp add: demo_filter_def)
qed

lemma broadcast2_and_left:
  assumes "broadcast2 (\<and>) a b = Inr c" "i < length c" "i < length a" "c ! i"
  shows "a ! i"
proof (cases "length a = length b")
  case True
  then show ?thesis using assms by (auto simp: broadcast2_def)
next
  case False
  show ?thesis
  proof (cases "length a = 1")
    case True
    then have "i = 0" using assms(3) by simp
    moreover have "c = map ((\<and>) (hd a)) b"
      using assms(1) True \<open>length a \<noteq> length b\<close> by (simp add: broadcast2_def)
    moreover have "hd a = a ! 0" using True by (cases a) simp_all
    ultimately show ?thesis using assms(2,4) by simp
  next
    case False
    then show ?thesis
      using assms \<open>length a \<noteq> length b\<close> by (auto simp: broadcast2_def split: if_splits)
  qed
qed

lemma select_mask_cc_cells:
  assumes "select_mask data_filter 1 e m t = Inr mc" "data_filter ''is_cc'' = Some cc"
    "i < length mc" "i < length cc" "mc ! i"
  shows "cc ! i = 1"
proof -
  have flav: "cc ! i = 1" if "cc_flavor_mask data_filter c = Inr mc" for c
  proof -
    from that assms(2) obtain fl where "broadcast2 (\<and>) (eq_scalar cc 1) fl = Inr mc"
      by (auto simp: cc_flavor_mask_def getitem_def split: option.splits sum.splits)
    from broadcast2_and_left[OF this assms(3) _ assms(5)] assms(4)
    show ?thesis by (simp add: eq_scalar_def)
  qed
  have plain: "cc ! i = 1" if "is_cc_mask data_filter 1 = Inr mc"
    using that assms(2-5) by (auto simp: is_cc_mask_def getitem_def eq_scalar_def)
  show ?thesis
    using assms(1) flav plain by (auto simp: select_mask_def split: if_splits)
qed

text \<open>
  Claim C4. Whatever the table and the flavor flags, no row index is selected both by a mask
  computed with the charged-current flag set and by the neutral-current mask.
\<close>

theorem cc_nc_masks_disjoint:
  assumes "select_mask data_filter 1 is_nu_e is_nu_mu is_nu_tau = Inr mc"
    and "select_mask data_filter 0 e' m' t' = Inr mn"
  shows "{i. i < length mc \<and> mc ! i} \<inter> {i. i < length mn \<and> mn ! i} = {}"
proof -
  from assms(2) obtain cc where cc: "data_filter ''is_cc'' = Some cc" and mn: "mn = eq_scalar cc 0"
    by (auto simp: select_mask_def is_cc_mask_def getitem_def split: option.splits)
  have False if "i < length mc" "mc ! i" "i < length mn" "mn ! i" for i
  proof -
    have "i < length cc" using that(3) mn by (simp add: eq_scalar_def)
    then have "cc ! i = 1" using select_mask_cc_cells[OF assms(1) cc that(1) _ that(2)] by simp
    moreover have "cc ! i = 0" using that(3,4) mn by (simp add: eq_scalar_def)
    ultimately show False by simp
  qed
  then show ?thesis by blast
qed

theorem cc_nc_masks_disjoint_witness:
  "select_mask demo_filter 1 0 1 0 = Inr [True, False, False]
   \<and> select_mask demo_filter 0 0 0 0 = Inr [False, False, True]
   \<and> {i. i < length [True, False, False] \<and> [True, False, False] ! i}
       \<inter> {i. i < length [False, False, True] \<and> [False, False, True] ! i} = {}"
proof -
  have c: "select_mask demo_filter 1 0 1 0 = Inr [True, False, False]"
    by (simp add: select_mask_def cc_flavor_mask_def getitem_def eq_scalar_def broadcast2_def
        demo_filter_def)
  have n: "select_mask demo_filter 0 0 0 0 = Inr [False, False, True]"
    by (simp add: select_mask_def is_cc_mask_def getitem_def eq_scalar_def demo_filter_def)
  show ?thesis using c n cc_nc_masks_disjoint [OF c n] by simp
qed

text \<open>
  Claim C5. For every table (also one that lacks the columns), when two or three of the
  flavor flags are 1 and none is negative, \<^verbatim>\<open>create_masked_dict\<close> prints the usage error
  and returns the empty dictionary; it raises nothing.
\<close>

theorem two_flavors_rejected:
  assumes "0 \<le> is_nu_e" and "0 \<le> is_nu_mu" and "0 \<le> is_nu_tau"
    and "(is_nu_e = 1 \<and> is_nu_mu = 1) \<or> (is_nu_e = 1 \<and> is_nu_tau = 1) \<or> (is_nu_mu = 1 \<and> is_nu_tau = 1)"
  shows "create_masked_dict data_filter is_cc is_nu_e is_nu_mu is_nu_tau =
           ([''Error: Only one neutrino type can be selected.''], Inr Map.empty)"
  using assms by (auto simp: create_masked_dict_def)

theorem two_flavors_rejected_witness:
  "create_masked_dict demo_filter 1 1 1 0 =
     ([''Error: Only one neutrino type can be selected.''], Inr Map.empty)
   \<and> create_masked_dict Map.empty 0 0 1 1 =
     ([''Error: Only one neutrino type can be selected.''], Inr Map.empty)"
  using two_flavors_rejected [of 1 1 0 demo_filter 1] two_flavors_rejected [of 0 1 1 Map.empty 0]
  by simp

section \<open>Properties of the loader\<close>

subsection \<open>What one task returns\<close>

lemma all_none_apply: "all_none names v = (if v \<in> set names then Some None else None)"
  unfolding all_none_def by (induction names) simp_all

lemma empty_lists_apply: "empty_lists names v = (if v \<in> set names then Some [] else None)"
  unfolding empty_lists_def by (induction names) simp_all

lemma read_fields_lookup:
  "read_fields data names = Inr kvs \<Longrightarrow>
   map_of kvs v =
     (if v \<in> set names then Some (case data v of Some (Inr a) \<Rightarrow> Some a | _ \<Rightarrow> None) else None)"
proof (induction names arbitrary: kvs)
  case Nil
  then show ?case by simp
next
  case (Cons var vars)
  then show ?case
    by (auto split: option.splits sum.splits)
qed

lemma read_fields_raises:
  "read_fields data names = Inl e \<Longrightarrow> \<exists>v \<in> set names. data v = Some (Inl e)"
  by (induction names) (auto split: option.splits sum.splits)

lemma load_variables_entry:
  "snd (load_variables env (file, names)) v =
     (if v \<in> set names then
        Some (case np_load env file of
                Inl e \<Rightarrow> None
              | Inr data \<Rightarrow>
                  (case read_fields data names of
                     Inl e \<Rightarrow> None
                   | Inr kvs \<Rightarrow> (case data v of Some (Inr a) \<Rightarrow> Some a | _ \<Rightarrow> None)))
      else None)"
  by (auto simp: load_variables_def all_none_apply read_fields_lookup split: sum.splits)

lemma load_variables_defined:
  "v \<in> set names \<Longrightarrow> snd (load_variables env (file, names)) v \<noteq> None"
  by (simp add: load_variables_entry)

lemma append_entry_ok:
  assumes "entry var \<noteq> None" "d var = Some l"
  shows "append_entry entry d var = Inr (d(var \<mapsto> l @ present entry var))"
proof -
  have "d(var \<mapsto> l) = d" using assms(2) by (simp add: map_upd_triv)
  then show ?thesis
    using assms by (auto simp: append_entry_def split: option.splits)
qed

lemma collect_entry_ok:
  assumes "\<forall>v \<in> set names. entry v \<noteq> None" "set names \<subseteq> dom d"
  shows "collect_entry entry names d =
         Inr (\<lambda>v. map_option (\<lambda>l. l @ concat (replicate (count_list names v) (present entry v))) (d v))"
  using assms
proof (induction names arbitrary: d)
  case Nil
  then show ?case by (simp add: option.map_ident)
next
  case (Cons var vars)
  then obtain l where l: "d var = Some l" by auto
  let ?d = "d(var \<mapsto> l @ present entry var)"
  have step: "append_entry entry d var = Inr ?d"
    using Cons.prems(1) l by (intro append_entry_ok) simp_all
  have sub: "set vars \<subseteq> dom ?d" using Cons.prems(2) by auto
  have ih: "collect_entry entry vars ?d =
      Inr (\<lambda>v. map_option (\<lambda>l. l @ concat (replicate (count_list vars v) (present entry v))) (?d v))"
  proof (rule Cons.IH)
    show "\<forall>v \<in> set vars. entry v \<noteq> None" using Cons.prems(1) by simp
  qed (rule sub)
  have "(\<lambda>v. map_option (\<lambda>l. l @ concat (replicate (count_list vars v) (present entry v))) (?d v)) =
        (\<lambda>v. map_option (\<lambda>l. l @ concat (replicate (count_list (var # vars) v) (present entry v))) (d v))"
    using l by (auto simp: fun_eq_iff)
  then show ?case using step ih by simp
qed

lemma collect_ok:
  assumes "\<forall>entry \<in> set entries. \<forall>v \<in> set names. entry v \<noteq> None" "set names \<subseteq> dom d"
  shows "collect entries names d =
         Inr (\<lambda>v. map_option
                (\<lambda>l. l @ concat (map (\<lambda>entry. concat (replicate (count_list names v) (present entry v))) entries))
                (d v))"
  using assms
proof (induction entries arbitrary: d)
  case Nil
  then show ?case by (simp add: option.map_ident)
next
  case (Cons entry entries)
  let ?d = "\<lambda>v. map_option (\<lambda>l. l @ concat (replicate (count_list names v) (present entry v))) (d v)"
  have step: "collect_entry entry names d = Inr ?d"
    using Cons.prems by (intro collect_entry_ok) simp_all
  have sub: "set names \<subseteq> dom ?d" using Cons.prems(2) by (auto simp: dom_def)
  have ih: "collect entries names ?d =
      Inr (\<lambda>v. map_option
                (\<lambda>l. l @ concat (map (\<lambda>entry. concat (replicate (count_list names v) (present entry v))) entries))
                (?d v))"
  proof (rule Cons.IH)
    show "\<forall>entry \<in> set entries. \<forall>v \<in> set names. entry v \<noteq> None" using Cons.prems(1) by simp
  qed (rule sub)
  show ?case using step ih by (simp add: option.map_comp comp_def)
qed

lemma gather_ok:
  "snd (gather env names files) =
     Inr (\<lambda>v. if v \<in> set names
              then Some (concat (map (\<lambda>file. concat (replicate (count_list names v)
                           (present (snd (load_variables env (file, names))) v))) files))
              else None)"
proof -
  let ?entries = "map snd (map (\<lambda>file. load_variables env (file, names)) files)"
  have "\<forall>entry \<in> set ?entries. \<forall>v \<in> set names. entry v \<noteq> None"
    using load_variables_defined by fastforce
  moreover have "set names \<subseteq> dom (empty_lists names)"
    by (auto simp: empty_lists_apply)
  ultimately have "collect ?entries names (empty_lists names) =
      Inr (\<lambda>v. map_option
                (\<lambda>l. l @ concat (map (\<lambda>entry. concat (replicate (count_list names v) (present entry v))) ?entries))
                (empty_lists names v))"
    by (rule collect_ok)
  then show ?thesis
    by (simp add: gather_def Let_def empty_lists_apply fun_eq_iff comp_def)
qed

lemma count_list_distinct: "distinct xs \<Longrightarrow> v \<in> set xs \<Longrightarrow> count_list xs v = 1"
  by (induction xs) auto

lemma gather_distinct:
  assumes "distinct names"
  shows "snd (gather env names files) =
     Inr (\<lambda>v. if v \<in> set names
              then Some (concat (map (\<lambda>file. present (snd (load_variables env (file, names))) v) files))
              else None)"
proof -
  have "count_list names v = 1" if "v \<in> set names" for v
    using assms that by (rule count_list_distinct)
  then show ?thesis
    unfolding gather_ok by (auto simp: fun_eq_iff)
qed

lemma load_ok:
  assumes "select_files env folder num_files file_selected = Inr files"
    "1 \<le> pool_size env num_workers" "snd (gather env names files) = Inr data_dict"
  shows "load_variables_from_npz env folder names num_workers num_files file_selected =
         Inr (fst (gather env names files) @ fst (convert_dict env (dict_keys names) data_dict),
              (\<lambda>var. map_option (\<lambda>xs. snd (convert_column env var xs)) (data_dict var)))"
  using assms
  by (cases "gather env names files")
     (simp add: load_variables_from_npz_def convert_dict_def split: prod.splits)

lemma select_files_selected:
  "listdir env folder = Inr names \<Longrightarrow> select_files env folder num_files (Some sel) = Inr sel"
  by (simp add: select_files_def)

lemma gather_fst:
  "fst (gather env names files) =
     concat (map (\<lambda>file. fst (load_variables env (file, names))) files)"
  by (simp add: gather_def Let_def comp_def)

lemma load_variables_failed:
  assumes "np_load env file = Inl e
           \<or> (\<exists>data. np_load env file = Inr data \<and> read_fields data names = Inl e)"
  shows "load_variables env (file, names) = ([load_error_line file e], all_none names)"
  using assms by (auto simp: load_variables_def)

text \<open>
  The result of the loader in closed form: the lines of the tasks of the files, in order,
  then the lines of the conversion; each requested name bound to the conversion of the
  arrays its tasks returned, in the order of the files.
\<close>

lemma load_closed:
  assumes "select_files env folder num_files file_selected = Inr files"
    and "1 \<le> pool_size env num_workers"
  shows "\<exists>lines table.
           load_variables_from_npz env folder names num_workers num_files file_selected =
             Inr (concat (map (\<lambda>file. fst (load_variables env (file, names))) files) @ lines,
                  table)
         \<and> dom table = set names
         \<and> (\<forall>var \<in> set names.
              table var =
                Some (snd (convert_column env var
                  (concat (map (\<lambda>file. concat (replicate (count_list names var)
                     (present (snd (load_variables env (file, names))) var))) files)))))"
proof -
  let ?D = "\<lambda>v. if v \<in> set names
              then Some (concat (map (\<lambda>file. concat (replicate (count_list names v)
                           (present (snd (load_variables env (file, names))) v))) files))
              else None"
  let ?table = "\<lambda>var. map_option (\<lambda>xs. snd (convert_column env var xs)) (?D var)"
  have l: "load_variables_from_npz env folder names num_workers num_files file_selected =
           Inr (concat (map (\<lambda>file. fst (load_variables env (file, names))) files)
                  @ fst (convert_dict env (dict_keys names) ?D), ?table)"
    using load_ok[OF assms gather_ok, of names] unfolding gather_fst .
  have d: "dom ?table = set names"
    by (auto simp: dom_def split: if_splits)
  have t: "\<forall>var \<in> set names. ?table var =
             Some (snd (convert_column env var
                  (concat (map (\<lambda>file. concat (replicate (count_list names var)
                     (present (snd (load_variables env (file, names))) var))) files))))"
    by simp
  show ?thesis
    by (intro exI conjI) (rule l, rule d, rule t)
qed

lemma load_limit:
  assumes "listdir env folder = Inr names" and "0 \<le> k"
  shows "load_variables_from_npz env folder vars num_workers (Some k) None =
         load_variables_from_npz env folder vars num_workers None
           (Some (take (nat k) (npz_files folder names)))"
  using assms by (simp add: load_variables_from_npz_def select_files_def slice_to_def)

lemma convert_column_empty: "convert_column env var [] = ([], Ragged [])"
  by (simp add: convert_column_def np_array_object_def)

lemma select_files_listdir:
  "select_files env folder num_files file_selected = Inr files \<Longrightarrow>
   \<exists>names. listdir env folder = Inr names"
  by (cases "listdir env folder") (simp_all add: select_files_def)

lemma len_convert_column: "len (snd (convert_column env var xs)) = length xs"
  by (auto simp: convert_column_def len_def np_array_float32_def np_array_object_def Let_def
      split: sum.splits list.splits option.splits if_splits)

lemma length_present:
  "length (concat (map (\<lambda>file. present (entry file) var) files)) =
   length (filter (\<lambda>file. case entry file var of Some (Some arr) \<Rightarrow> True | _ \<Rightarrow> False) files)"
  by (induction files) (auto split: option.splits)

lemma uniform_shapes:
  assumes "set (map shape xs) = {s}"
  shows "xs \<noteq> []" and "list_all (\<lambda>y. shape y = s) xs"
  using assms by (auto simp: list_all_iff)

lemma convert_column_uniform:
  assumes "set (map shape xs) = {s}"
    and "those (map (astype_float32 env) (concat (map cells xs))) = Some cs"
  shows "convert_column env var xs =
         ([], Uniform \<lparr>shape = length xs # s, dtype = Float32, cells = cs\<rparr>)"
proof -
  obtain x rest where xs: "xs = x # rest"
    using uniform_shapes(1)[OF assms(1)] by (cases xs) auto
  have all: "list_all (\<lambda>y. shape y = s) xs" by (rule uniform_shapes(2)[OF assms(1)])
  then have sx: "shape x = s" using xs by simp
  have "np_array_float32 env xs = Inr \<lparr>shape = length xs # s, dtype = Float32, cells = cs\<rparr>"
    using all assms(2) unfolding np_array_float32_def xs by (simp add: sx)
  moreover have "card (set (map shape xs)) = 1" unfolding assms(1) by simp
  ultimately show ?thesis by (simp add: convert_column_def)
qed

lemma convert_column_unconvertible:
  assumes "set (map shape xs) = {s}"
    and "those (map (astype_float32 env) (concat (map cells xs))) = None"
  shows "convert_column env var xs =
         ([process_error_line var (float32_error env)], Unconverted xs)"
proof -
  obtain x rest where xs: "xs = x # rest"
    using uniform_shapes(1)[OF assms(1)] by (cases xs) auto
  have all: "list_all (\<lambda>y. shape y = s) xs" by (rule uniform_shapes(2)[OF assms(1)])
  then have sx: "shape x = s" using xs by simp
  have "np_array_float32 env xs = Inl (float32_error env)"
    using all assms(2) unfolding np_array_float32_def xs by (simp add: sx)
  moreover have "card (set (map shape xs)) = 1" unfolding assms(1) by simp
  ultimately show ?thesis by (simp add: convert_column_def)
qed

lemma convert_column_ragged:
  assumes "2 \<le> card (set (map shape xs))"
  shows "convert_column env var xs =
         (if first_dims_differ xs then ([], Ragged xs)
          else case np_object env xs of
                 Inl e \<Rightarrow> ([process_error_line var e], Unconverted xs)
               | Inr (dims, items) \<Rightarrow> ([], ObjectArray (length xs # dims) items))"
proof -
  have "xs \<noteq> []" using assms by auto
  then show ?thesis
    using assms
    by (simp add: convert_column_def np_array_object_def split: sum.splits prod.splits)
qed

subsection \<open>The example directory\<close>

lemma demo_listdir: "listdir demo_env ''data'' = Inr [''a.npz'', ''notes.txt'', ''b.npz'', ''c.npz'']"
  by (simp add: demo_env_def)

lemma demo_files:
  "select_files demo_env ''data'' None None = Inr [''data/a.npz'', ''data/b.npz'', ''data/c.npz'']"
  by (simp add: select_files_def npz_files_def endswith_def path_join_def demo_env_def)

lemma demo_pool: "1 \<le> pool_size demo_env 28"
  by (simp add: pool_size_def demo_env_def)

lemma demo_load:
  "np_load demo_env ''data/a.npz'' = Inr archive_a"
  "np_load demo_env ''data/b.npz'' = Inr archive_b"
  "np_load demo_env ''data/c.npz'' = Inl ''File is not a zip file''"
  by (simp_all add: demo_env_def)

lemma demo_entries:
  "snd (load_variables demo_env (''data/a.npz'', names)) v =
     (if v \<in> set names
      then Some (case read_fields archive_a names of
                   Inl e \<Rightarrow> None
                 | Inr kvs \<Rightarrow> (case archive_a v of Some (Inr a) \<Rightarrow> Some a | _ \<Rightarrow> None))
      else None)"
  "snd (load_variables demo_env (''data/b.npz'', names)) v =
     (if v \<in> set names
      then Some (case read_fields archive_b names of
                   Inl e \<Rightarrow> None
                 | Inr kvs \<Rightarrow> (case archive_b v of Some (Inr a) \<Rightarrow> Some a | _ \<Rightarrow> None))
      else None)"
  "snd (load_variables demo_env (''data/c.npz'', names)) v =
     (if v \<in> set names then Some None else None)"
  by (simp_all add: load_variables_entry demo_load)

lemma demo_gather:
  "snd (gather demo_env [''is_cc'', ''hits'']
          [''data/a.npz'', ''data/b.npz'', ''data/c.npz'']) =
     Inr (\<lambda>v. if v \<in> set [''is_cc'', ''hits'']
              then Some (concat (map (\<lambda>file.
                     present (snd (load_variables demo_env (file, [''is_cc'', ''hits'']))) v)
                     [''data/a.npz'', ''data/b.npz'', ''data/c.npz'']))
              else None)"
  by (rule gather_distinct) simp

lemma demo_ones_files:
  "select_files demo_env ''ones'' None None = Inr [''ones/p.npz'', ''ones/q.npz'']"
  by (simp add: select_files_def npz_files_def endswith_def path_join_def demo_env_def)

lemma demo_ones_load:
  "np_load demo_env ''ones/p.npz'' = Inr archive_p"
  "np_load demo_env ''ones/q.npz'' = Inr archive_q"
  by (simp_all add: demo_env_def)

lemma demo_ones_gather:
  "snd (gather demo_env [''w''] [''ones/p.npz'', ''ones/q.npz'']) =
     Inr (\<lambda>v. if v \<in> set [''w'']
              then Some [\<lparr>shape = [1], dtype = Float64, cells = [5]\<rparr>,
                         \<lparr>shape = [1, 1], dtype = Float64, cells = [7]\<rparr>]
              else None)"
  using gather_distinct [of "[''w'']" demo_env "[''ones/p.npz'', ''ones/q.npz'']"]
  by (simp add: load_variables_entry demo_ones_load archive_p_def archive_q_def cong: if_cong)

subsection \<open>Failing files\<close>

text \<open>
  Claim C1. When opening a file raises, or reading one of the requested members raises, the
  task for that file prints \<^verbatim>\<open>Error loading <file>: <message>\<close> and returns \<^verbatim>\<open>None\<close> for
  every requested field. The batch that contains the file completes, its output contains that
  line, and its table is the table of the same batch without the file: the file adds no row
  to any column.
\<close>

theorem failed_file_is_skipped:
  assumes "np_load env file = Inl e
           \<or> (\<exists>data. np_load env file = Inr data \<and> read_fields data variable_names = Inl e)"
    and "select_files env folder_path num_files file_selected = Inr (before @ file # after)"
    and "1 \<le> pool_size env num_workers"
  shows "load_variables env (file, variable_names) =
           ([load_error_line file e], all_none variable_names)
       \<and> (\<forall>var \<in> set variable_names.
             snd (load_variables env (file, variable_names)) var = Some None)
       \<and> (\<exists>lines lines' table.
             load_variables_from_npz env folder_path variable_names num_workers num_files
               file_selected = Inr (lines, table)
           \<and> load_error_line file e \<in> set lines
           \<and> load_variables_from_npz env folder_path variable_names num_workers num_files
               (Some (before @ after)) = Inr (lines', table))"
proof -
  have lv: "load_variables env (file, variable_names) =
            ([load_error_line file e], all_none variable_names)"
    using assms(1) by (auto simp: load_variables_def)
  have none: "snd (load_variables env (file, variable_names)) var = Some None"
    if "var \<in> set variable_names" for var
    using that by (simp add: lv all_none_apply)
  have skipped: "present (snd (load_variables env (file, variable_names))) v = []" for v
    by (simp add: lv all_none_apply)
  let ?D = "\<lambda>files v. if v \<in> set variable_names
              then Some (concat (map (\<lambda>file. concat (replicate (count_list variable_names v)
                           (present (snd (load_variables env (file, variable_names))) v))) files))
              else None"
  have same: "?D (before @ file # after) = ?D (before @ after)"
    by (simp add: skipped fun_eq_iff)
  obtain names where names: "listdir env folder_path = Inr names"
    using select_files_listdir [OF assms(2)] ..
  have l1: "load_variables_from_npz env folder_path variable_names num_workers num_files
               file_selected =
            Inr (fst (gather env variable_names (before @ file # after))
                   @ fst (convert_dict env (dict_keys variable_names) (?D (before @ file # after))),
                 (\<lambda>var. map_option (\<lambda>xs. snd (convert_column env var xs)) (?D (before @ file # after) var)))"
    by (rule load_ok[OF assms(2) assms(3) gather_ok])
  have l2: "load_variables_from_npz env folder_path variable_names num_workers num_files
               (Some (before @ after)) =
            Inr (fst (gather env variable_names (before @ after))
                   @ fst (convert_dict env (dict_keys variable_names) (?D (before @ after))),
                 (\<lambda>var. map_option (\<lambda>xs. snd (convert_column env var xs)) (?D (before @ after) var)))"
    by (rule load_ok[OF select_files_selected[OF names] assms(3) gather_ok])
  have line: "load_error_line file e \<in> set (fst (gather env variable_names (before @ file # after)))"
    by (simp add: gather_def Let_def lv)
  show ?thesis
    using lv none l1 l2 line unfolding same by auto
qed

theorem failed_file_is_skipped_witness:
  "load_variables demo_env (''data/c.npz'', [''is_cc'', ''hits'']) =
     ([''Error loading data/c.npz: File is not a zip file''], all_none [''is_cc'', ''hits''])
   \<and> snd (load_variables demo_env (''data/c.npz'', [''is_cc'', ''hits''])) ''hits'' = Some None
   \<and> (\<exists>lines lines' table.
         load_variables_from_npz demo_env ''data'' [''is_cc'', ''hits''] 28 None None
           = Inr (lines, table)
       \<and> ''Error loading data/c.npz: File is not a zip file'' \<in> set lines
       \<and> load_variables_from_npz demo_env ''data'' [''is_cc'', ''hits''] 28 None
           (Some [''data/a.npz'', ''data/b.npz'']) = Inr (lines', table))"
proof -
  have h: "np_load demo_env ''data/c.npz'' = Inl ''File is not a zip file''
           \<or> (\<exists>data. np_load demo_env ''data/c.npz'' = Inr data
                \<and> read_fields data [''is_cc'', ''hits''] = Inl ''File is not a zip file'')"
    by (simp add: demo_load)
  have f: "select_files demo_env ''data'' None None =
           Inr ([''data/a.npz'', ''data/b.npz''] @ ''data/c.npz'' # [])"
    using demo_files by simp
  show ?thesis
    using failed_file_is_skipped [OF h f demo_pool]
    by (simp add: load_error_line_def all_none_apply)
qed

subsection \<open>The keys of the table\<close>

text \<open>
  Claim C2. Whenever the loader returns, the keys of its table are exactly the requested
  names, and a name for which every task returned \<^verbatim>\<open>None\<close> is bound to the empty object
  array.
\<close>

theorem table_keys_are_requested:
  assumes "select_files env folder_path num_files file_selected = Inr file_list"
    and "1 \<le> pool_size env num_workers"
  shows "\<exists>lines table.
           load_variables_from_npz env folder_path variable_names num_workers num_files
             file_selected = Inr (lines, table)
         \<and> dom table = set variable_names
         \<and> (\<forall>var \<in> set variable_names.
               (\<forall>file \<in> set file_list.
                  snd (load_variables env (file, variable_names)) var = Some None)
               \<longrightarrow> table var = Some (Ragged []))"
proof -
  let ?D = "\<lambda>v. if v \<in> set variable_names
              then Some (concat (map (\<lambda>file. concat (replicate (count_list variable_names v)
                           (present (snd (load_variables env (file, variable_names))) v))) file_list))
              else None"
  let ?table = "\<lambda>var. map_option (\<lambda>xs. snd (convert_column env var xs)) (?D var)"
  have l: "load_variables_from_npz env folder_path variable_names num_workers num_files
             file_selected =
           Inr (fst (gather env variable_names file_list)
                  @ fst (convert_dict env (dict_keys variable_names) ?D), ?table)"
    by (rule load_ok[OF assms gather_ok])
  have keys: "dom ?table = set variable_names"
    by (auto simp: dom_def)
  have empty: "?table var = Some (Ragged [])"
    if "var \<in> set variable_names"
      "\<forall>file \<in> set file_list. snd (load_variables env (file, variable_names)) var = Some None"
    for var
  proof -
    have e: "concat (map (\<lambda>file. concat (replicate (count_list variable_names var)
            (present (snd (load_variables env (file, variable_names))) var))) file_list) = []"
      using that(2) by (induction file_list) simp_all
    show ?thesis unfolding e using that(1) by (simp add: convert_column_empty)
  qed
  show ?thesis
    using l keys empty by blast
qed

theorem table_keys_are_requested_witness:
  "\<exists>lines table.
     load_variables_from_npz demo_env ''data'' [''is_cc'', ''in_neutrino_pdg'', ''out_lepton_pdg'']
       28 None None = Inr (lines, table)
   \<and> dom table = {''is_cc'', ''in_neutrino_pdg'', ''out_lepton_pdg''}
   \<and> table ''out_lepton_pdg'' = Some (Ragged [])"
  using table_keys_are_requested [OF demo_files demo_pool,
      of "[''is_cc'', ''in_neutrino_pdg'', ''out_lepton_pdg'']"]
  by (simp add: demo_entries archive_a_def archive_b_def)

subsection \<open>Missing fields\<close>

text \<open>
  Claim C6. For requested names without repetition: a file that was opened and read without
  an exception gives \<^verbatim>\<open>None\<close> for a requested field it lacks and the stored array,
  unchanged, for a requested field it has. The list gathered for a field is the arrays of the
  files whose task returned one, in file order, and the length of the field's column is the
  number of those files.
\<close>

theorem absent_field_contributes_no_row:
  assumes "distinct variable_names"
    and "select_files env folder_path num_files file_selected = Inr file_list"
    and "1 \<le> pool_size env num_workers"
  shows "(\<forall>file data kvs var.
            np_load env file = Inr data \<and> read_fields data variable_names = Inr kvs
            \<and> var \<in> set variable_names \<longrightarrow>
              (data var = None \<longrightarrow>
                 snd (load_variables env (file, variable_names)) var = Some None)
            \<and> (\<forall>arr. data var = Some (Inr arr) \<longrightarrow>
                 snd (load_variables env (file, variable_names)) var = Some (Some arr)))
       \<and> (\<exists>lines table data_dict.
             load_variables_from_npz env folder_path variable_names num_workers num_files
               file_selected = Inr (lines, table)
           \<and> snd (gather env variable_names file_list) = Inr data_dict
           \<and> (\<forall>var \<in> set variable_names.
                 data_dict var =
                   Some (concat (map (\<lambda>file.
                      present (snd (load_variables env (file, variable_names))) var) file_list))
               \<and> (\<exists>c. table var = Some c
                    \<and> len c =
                        length (filter (\<lambda>file.
                          case snd (load_variables env (file, variable_names)) var of
                            Some (Some arr) \<Rightarrow> True | _ \<Rightarrow> False) file_list))))"
proof -
  let ?D = "\<lambda>v. if v \<in> set variable_names
              then Some (concat (map (\<lambda>file.
                     present (snd (load_variables env (file, variable_names))) v) file_list))
              else None"
  let ?table = "\<lambda>var. map_option (\<lambda>xs. snd (convert_column env var xs)) (?D var)"
  have g: "snd (gather env variable_names file_list) = Inr ?D"
    by (rule gather_distinct[OF assms(1)])
  have l: "load_variables_from_npz env folder_path variable_names num_workers num_files
             file_selected =
           Inr (fst (gather env variable_names file_list)
                  @ fst (convert_dict env (dict_keys variable_names) ?D), ?table)"
    by (rule load_ok[OF assms(2,3) g])
  have per_file: "(data var = None \<longrightarrow>
                 snd (load_variables env (fl, variable_names)) var = Some None)
            \<and> (\<forall>arr. data var = Some (Inr arr) \<longrightarrow>
                 snd (load_variables env (fl, variable_names)) var = Some (Some arr))"
    if "np_load env fl = Inr data" "read_fields data variable_names = Inr kvs"
      "var \<in> set variable_names" for fl data kvs var
    using that by (simp add: load_variables_entry)
  have col: "\<exists>c. ?table var = Some c
       \<and> len c = length (filter (\<lambda>file.
                          case snd (load_variables env (file, variable_names)) var of
                            Some (Some arr) \<Rightarrow> True | _ \<Rightarrow> False) file_list)"
    if "var \<in> set variable_names" for var
    using that
      length_present[of "\<lambda>file. snd (load_variables env (file, variable_names))" var file_list]
    by (simp add: len_convert_column)
  have dd: "?D var = Some (concat (map (\<lambda>file.
                      present (snd (load_variables env (file, variable_names))) var) file_list))"
    if "var \<in> set variable_names" for var
    using that by simp
  show ?thesis
    using per_file l g col dd by blast
qed

theorem absent_field_contributes_no_row_witness:
  "snd (load_variables demo_env (''data/b.npz'', [''is_cc'', ''in_neutrino_pdg''])) ''in_neutrino_pdg''
     = Some None
   \<and> snd (load_variables demo_env (''data/b.npz'', [''is_cc'', ''in_neutrino_pdg''])) ''is_cc''
     = Some (Some \<lparr>shape = [], dtype = Int64, cells = [0]\<rparr>)
   \<and> (\<exists>lines table c1 c2.
         load_variables_from_npz demo_env ''data'' [''is_cc'', ''in_neutrino_pdg''] 28 None None
           = Inr (lines, table)
       \<and> table ''is_cc'' = Some c1 \<and> len c1 = 2
       \<and> table ''in_neutrino_pdg'' = Some c2 \<and> len c2 = 1)"
proof -
  have d: "distinct [''is_cc'', ''in_neutrino_pdg'']" by simp
  note t = absent_field_contributes_no_row [OF d demo_files demo_pool]
  have r: "read_fields archive_b [''is_cc'', ''in_neutrino_pdg''] =
           Inr [(''is_cc'', Some \<lparr>shape = [], dtype = Int64, cells = [0]\<rparr>),
                (''in_neutrino_pdg'', None)]"
    by (simp add: archive_b_def)
  note pf = t [THEN conjunct1, rule_format, OF conjI [OF demo_load(2) conjI [OF r]]]
  have a: "snd (load_variables demo_env (''data/b.npz'', [''is_cc'', ''in_neutrino_pdg'']))
             ''in_neutrino_pdg'' = Some None"
    using pf [of "''in_neutrino_pdg''"] by (simp add: archive_b_def)
  have b: "snd (load_variables demo_env (''data/b.npz'', [''is_cc'', ''in_neutrino_pdg'']))
             ''is_cc'' = Some (Some \<lparr>shape = [], dtype = Int64, cells = [0]\<rparr>)"
    using pf [of "''is_cc''"] by (simp add: archive_b_def)
  from t [THEN conjunct2] obtain lines table data_dict where
    l: "load_variables_from_npz demo_env ''data'' [''is_cc'', ''in_neutrino_pdg''] 28 None None
          = Inr (lines, table)"
    and c: "\<forall>var \<in> set [''is_cc'', ''in_neutrino_pdg''].
              data_dict var =
                Some (concat (map (\<lambda>file.
                   present (snd (load_variables demo_env (file, [''is_cc'', ''in_neutrino_pdg'']))) var)
                   [''data/a.npz'', ''data/b.npz'', ''data/c.npz'']))
            \<and> (\<exists>c. table var = Some c
                \<and> len c = length (filter (\<lambda>file.
                     case snd (load_variables demo_env (file, [''is_cc'', ''in_neutrino_pdg''])) var of
                       Some (Some arr) \<Rightarrow> True | _ \<Rightarrow> False)
                     [''data/a.npz'', ''data/b.npz'', ''data/c.npz'']))"
    by (elim exE conjE)
  from c [THEN bspec, of "''is_cc''"] obtain c1 where
    c1: "table ''is_cc'' = Some c1" "len c1 = Suc (Suc 0)"
    by (auto simp: demo_entries archive_a_def archive_b_def)
  from c [THEN bspec, of "''in_neutrino_pdg''"] obtain c2 where
    c2: "table ''in_neutrino_pdg'' = Some c2" "len c2 = Suc 0"
    by (auto simp: demo_entries archive_a_def archive_b_def)
  show ?thesis
    using a b l c1 c2 by (simp add: numeral_2_eq_2)
qed

subsection \<open>Stacked and ragged columns\<close>

text \<open>
  Claim C7, as amended. Let \<open>xs\<close> be the arrays gathered for a field. If they all have the
  one shape \<open>s\<close> and their cells convert to 32-bit floats, the field's value is the single
  array of shape \<open>length xs # s\<close> that stacks them; if a cell does not convert, the value is
  the list \<open>xs\<close> left in place. If they have two or more distinct shapes
  and their first dimensions are not all the same (differing hit counts per event), the
  value is the one-dimensional object array that holds the arrays themselves, in file order.
  If they have two or more distinct shapes but agree in their first dimension, or one of
  them has no dimension, the value is what NumPy's object constructor makes of them: an
  object array whose first dimension is the number of arrays, or, when the constructor
  raises, the list \<open>xs\<close> left in place.
\<close>

theorem column_uniform_or_ragged:
  assumes "select_files env folder_path num_files file_selected = Inr file_list"
    and "1 \<le> pool_size env num_workers"
    and "snd (gather env variable_names file_list) = Inr data_dict"
    and "data_dict var = Some xs"
  shows "\<exists>lines table.
           load_variables_from_npz env folder_path variable_names num_workers num_files
             file_selected = Inr (lines, table)
         \<and> (\<forall>s cs. set (map shape xs) = {s}
                \<and> those (map (astype_float32 env) (concat (map cells xs))) = Some cs \<longrightarrow>
              table var = Some (Uniform \<lparr>shape = length xs # s, dtype = Float32, cells = cs\<rparr>))
         \<and> (\<forall>s. set (map shape xs) = {s}
                \<and> those (map (astype_float32 env) (concat (map cells xs))) = None \<longrightarrow>
              table var = Some (Unconverted xs))
         \<and> (2 \<le> card (set (map shape xs)) \<and> first_dims_differ xs \<longrightarrow>
              table var = Some (Ragged xs))
         \<and> (2 \<le> card (set (map shape xs)) \<and> \<not> first_dims_differ xs \<longrightarrow>
              table var =
                Some (case np_object env xs of
                        Inl e \<Rightarrow> Unconverted xs
                      | Inr (dims, items) \<Rightarrow> ObjectArray (length xs # dims) items))"
proof -
  let ?table = "\<lambda>var. map_option (\<lambda>xs. snd (convert_column env var xs)) (data_dict var)"
  have l: "load_variables_from_npz env folder_path variable_names num_workers num_files
             file_selected =
           Inr (fst (gather env variable_names file_list)
                  @ fst (convert_dict env (dict_keys variable_names) data_dict), ?table)"
    by (rule load_ok[OF assms(1,2,3)])
  have u: "?table var = Some (Uniform \<lparr>shape = length xs # s, dtype = Float32, cells = cs\<rparr>)"
    if "set (map shape xs) = {s}"
      "those (map (astype_float32 env) (concat (map cells xs))) = Some cs" for s cs
    using assms(4) convert_column_uniform[OF that, of var] by simp
  have f: "?table var = Some (Unconverted xs)"
    if "set (map shape xs) = {s}"
      "those (map (astype_float32 env) (concat (map cells xs))) = None" for s
    using assms(4) convert_column_unconvertible[OF that, of var] by simp
  have r: "?table var = Some (Ragged xs)"
    if "2 \<le> card (set (map shape xs))" "first_dims_differ xs"
    using assms(4) that(2) convert_column_ragged[OF that(1), of env var] by simp
  have n: "?table var =
       Some (case np_object env xs of
               Inl e \<Rightarrow> Unconverted xs
             | Inr (dims, items) \<Rightarrow> ObjectArray (length xs # dims) items)"
    if "2 \<le> card (set (map shape xs))" "\<not> first_dims_differ xs"
    using assms(4) that(2) convert_column_ragged[OF that(1), of env var]
    by (simp split: sum.splits prod.splits)
  show ?thesis
    using l u f r n by blast
qed

theorem column_uniform_or_ragged_witness:
  "(\<exists>lines table.
      load_variables_from_npz demo_env ''data'' [''is_cc'', ''hits''] 28 None None
        = Inr (lines, table)
    \<and> table ''is_cc'' = Some (Uniform \<lparr>shape = [2], dtype = Float32, cells = [1, 0]\<rparr>)
    \<and> table ''hits'' =
        Some (Ragged [\<lparr>shape = [2], dtype = Float64, cells = [5, 6]\<rparr>,
                      \<lparr>shape = [3], dtype = Float64, cells = [7, 8, 9]\<rparr>]))
   \<and> (\<exists>lines table.
      load_variables_from_npz demo_env ''ones'' [''w''] 28 None None = Inr (lines, table)
    \<and> table ''w'' = Some (ObjectArray [2, 1] [Cell 5, Cell 7]))"
proof -
  let ?ws = "[\<lparr>shape = [1], dtype = Float64, cells = [5::int]\<rparr>,
              \<lparr>shape = [1, 1], dtype = Float64, cells = [7]\<rparr>]"
  have w: "(\<lambda>v. if v \<in> set [''w''] then Some ?ws else None) ''w'' = Some ?ws"
    by simp
  from column_uniform_or_ragged [OF demo_ones_files demo_pool demo_ones_gather w]
  obtain lines'' table'' where
    l'': "load_variables_from_npz demo_env ''ones'' [''w''] 28 None None = Inr (lines'', table'')"
    and o: "2 \<le> card (set (map shape ?ws)) \<and> \<not> first_dims_differ ?ws \<longrightarrow>
              table'' ''w'' =
                Some (case np_object demo_env ?ws of
                        Inl e \<Rightarrow> Unconverted ?ws
                      | Inr (dims, items) \<Rightarrow> ObjectArray (length ?ws # dims) items)"
    by (elim exE conjE)
  have "table'' ''w'' = Some (ObjectArray [2, 1] [Cell 5, Cell 7])"
    using o by (simp add: first_dims_differ_def demo_env_def)
  with l'' have ones: "\<exists>lines table.
      load_variables_from_npz demo_env ''ones'' [''w''] 28 None None = Inr (lines, table)
    \<and> table ''w'' = Some (ObjectArray [2, 1] [Cell 5, Cell 7])"
    by simp
  let ?cc = "[\<lparr>shape = [], dtype = Int64, cells = [1::int]\<rparr>,
              \<lparr>shape = [], dtype = Int64, cells = [0]\<rparr>]"
  let ?hits = "[\<lparr>shape = [2], dtype = Float64, cells = [5::int, 6]\<rparr>,
                \<lparr>shape = [3], dtype = Float64, cells = [7, 8, 9]\<rparr>]"
  have cc: "(\<lambda>v. if v \<in> set [''is_cc'', ''hits'']
              then Some (concat (map (\<lambda>file.
                     present (snd (load_variables demo_env (file, [''is_cc'', ''hits'']))) v)
                     [''data/a.npz'', ''data/b.npz'', ''data/c.npz'']))
              else None) ''is_cc'' = Some ?cc"
    by (simp add: demo_entries archive_a_def archive_b_def)
  have hits: "(\<lambda>v. if v \<in> set [''is_cc'', ''hits'']
              then Some (concat (map (\<lambda>file.
                     present (snd (load_variables demo_env (file, [''is_cc'', ''hits'']))) v)
                     [''data/a.npz'', ''data/b.npz'', ''data/c.npz'']))
              else None) ''hits'' = Some ?hits"
    by (simp add: demo_entries archive_a_def archive_b_def)
  from column_uniform_or_ragged [OF demo_files demo_pool demo_gather cc]
  obtain lines table where
    l: "load_variables_from_npz demo_env ''data'' [''is_cc'', ''hits''] 28 None None
          = Inr (lines, table)"
    and u: "\<forall>s cs. set (map shape ?cc) = {s}
                \<and> those (map (astype_float32 demo_env) (concat (map cells ?cc))) = Some cs \<longrightarrow>
              table ''is_cc'' = Some (Uniform \<lparr>shape = length ?cc # s, dtype = Float32, cells = cs\<rparr>)"
    by (elim exE conjE)
  from column_uniform_or_ragged [OF demo_files demo_pool demo_gather hits]
  obtain lines' table' where
    l': "load_variables_from_npz demo_env ''data'' [''is_cc'', ''hits''] 28 None None
          = Inr (lines', table')"
    and r: "2 \<le> card (set (map shape ?hits)) \<and> first_dims_differ ?hits \<longrightarrow>
              table' ''hits'' = Some (Ragged ?hits)"
    by (elim exE conjE)
  have same: "table' = table" using l l' by simp
  have "table ''is_cc'' = Some (Uniform \<lparr>shape = [2], dtype = Float32, cells = [1, 0]\<rparr>)"
    using u [THEN spec, THEN spec, of "[]" "[1, 0]"] by (simp add: demo_env_def)
  moreover have "table ''hits'' = Some (Ragged ?hits)"
    using r unfolding same by (simp add: first_dims_differ_def)
  ultimately have "\<exists>lines table.
      load_variables_from_npz demo_env ''data'' [''is_cc'', ''hits''] 28 None None
        = Inr (lines, table)
    \<and> table ''is_cc'' = Some (Uniform \<lparr>shape = [2], dtype = Float32, cells = [1, 0]\<rparr>)
    \<and> table ''hits'' = Some (Ragged ?hits)"
    using l by simp
  then show ?thesis using ones by (rule conjI)
qed

text \<open>
  Claim C7 as stated has every field of two or more shapes hold the per-file arrays. The two
  arrays of the directory \<open>ones\<close>, of shapes \<open>(1,)\<close> and \<open>(1,1)\<close>, become a \<open>(2,1)\<close> object
  array of their two cells: the table holds neither of the arrays.
\<close>

theorem cells_not_arrays_counterexample:
  "load_variables_from_npz demo_env ''ones'' [''w''] 28 None None =
     Inr ([], [''w'' \<mapsto> ObjectArray [2, 1] [Cell 5, Cell 7]])"
proof -
  let ?xs = "[\<lparr>shape = [1], dtype = Float64, cells = [5::int]\<rparr>,
              \<lparr>shape = [1, 1], dtype = Float64, cells = [7]\<rparr>]"
  have c: "convert_column demo_env ''w'' ?xs = ([], ObjectArray [2, 1] [Cell 5, Cell 7])"
    by (simp add: convert_column_def np_array_object_def first_dims_differ_def demo_env_def)
  have t: "(\<lambda>var. map_option (\<lambda>xs. snd (convert_column demo_env var xs))
             (if var \<in> set [''w''] then Some ?xs else None)) =
           [''w'' \<mapsto> ObjectArray [2, 1] [Cell 5, Cell 7]]"
  proof (rule ext)
    fix var :: string
    show "map_option (\<lambda>xs. snd (convert_column demo_env var xs))
            (if var \<in> set [''w''] then Some ?xs else None) =
          [''w'' \<mapsto> ObjectArray [2, 1] [Cell 5, Cell 7]] var"
    proof (cases "var = ''w''")
      case True
      show ?thesis unfolding True using c by simp
    next
      case False
      then show ?thesis by simp
    qed
  qed
  have cl: "fst (convert_dict demo_env (dict_keys [''w''])
             (\<lambda>v. if v \<in> set [''w''] then Some ?xs else None)) = []"
    using c by (simp add: convert_dict_def)
  have fl: "fst (gather demo_env [''w''] [''ones/p.npz'', ''ones/q.npz'']) = []"
    by (simp add: gather_def load_variables_def demo_ones_load archive_p_def archive_q_def)
  show ?thesis
    using load_ok [OF demo_ones_files demo_pool demo_ones_gather] unfolding t cl fl by simp
qed

text \<open>
  Claim C10. When the arrays gathered for a field share one shape and their cells convert, the
  column is stored with element type \<open>Float32\<close> and holds the converted cells, whatever the
  element types of the gathered arrays: the columns of integer fields are floats.
\<close>

theorem uniform_column_is_float32:
  assumes "select_files env folder_path num_files file_selected = Inr file_list"
    and "1 \<le> pool_size env num_workers"
    and "snd (gather env variable_names file_list) = Inr data_dict"
    and "data_dict var = Some xs"
    and "card (set (map shape xs)) = 1"
    and "those (map (astype_float32 env) (concat (map cells xs))) = Some cs"
  shows "\<exists>lines table a.
           load_variables_from_npz env folder_path variable_names num_workers num_files
             file_selected = Inr (lines, table)
         \<and> table var = Some (Uniform a) \<and> dtype a = Float32 \<and> cells a = cs"
proof -
  let ?table = "\<lambda>var. map_option (\<lambda>xs. snd (convert_column env var xs)) (data_dict var)"
  have l: "load_variables_from_npz env folder_path variable_names num_workers num_files
             file_selected =
           Inr (fst (gather env variable_names file_list)
                  @ fst (convert_dict env (dict_keys variable_names) data_dict), ?table)"
    by (rule load_ok[OF assms(1,2,3)])
  obtain s where s: "set (map shape xs) = {s}"
    using assms(5) by (auto simp: card_1_singleton_iff)
  have "?table var = Some (Uniform \<lparr>shape = length xs # s, dtype = Float32, cells = cs\<rparr>)"
    using assms(4) convert_column_uniform[OF s assms(6), of var] by simp
  then show ?thesis using l by force
qed

theorem uniform_column_is_float32_witness:
  "archive_a ''is_cc'' = Some (Inr \<lparr>shape = [], dtype = Int64, cells = [1]\<rparr>)
   \<and> archive_b ''is_cc'' = Some (Inr \<lparr>shape = [], dtype = Int64, cells = [0]\<rparr>)
   \<and> (\<exists>lines table a.
         load_variables_from_npz demo_env ''data'' [''is_cc'', ''hits''] 28 None None
           = Inr (lines, table)
       \<and> table ''is_cc'' = Some (Uniform a) \<and> dtype a = Float32 \<and> cells a = [1, 0])"
proof -
  let ?cc = "[\<lparr>shape = [], dtype = Int64, cells = [1::int]\<rparr>,
              \<lparr>shape = [], dtype = Int64, cells = [0]\<rparr>]"
  have cc: "(\<lambda>v. if v \<in> set [''is_cc'', ''hits'']
              then Some (concat (map (\<lambda>file.
                     present (snd (load_variables demo_env (file, [''is_cc'', ''hits'']))) v)
                     [''data/a.npz'', ''data/b.npz'', ''data/c.npz'']))
              else None) ''is_cc'' = Some ?cc"
    by (simp add: demo_entries archive_a_def archive_b_def)
  have one: "card (set (map shape ?cc)) = 1" by simp
  have cast: "those (map (astype_float32 demo_env) (concat (map cells ?cc))) = Some [1, 0]"
    by (simp add: demo_env_def)
  show ?thesis
    using uniform_column_is_float32 [OF demo_files demo_pool demo_gather cc one cast]
    by (simp add: archive_a_def archive_b_def)
qed

subsection \<open>Which files are loaded\<close>

text \<open>
  Claim C8. When the directory can be listed: with a limit \<open>k \<ge> 0\<close> and no explicit list,
  the files considered are the first \<open>k\<close> discovered archive files, in discovery order, so
  at most \<open>k\<close> of them, and the loader returns what it returns for that list of files. With
  an explicit list the files considered are exactly that list, whatever the directory holds
  and whatever the limit; the loader's result does not depend on the limit, and, the pool
  having a process, it is made of the tasks of exactly the files of the list: the output
  begins with the lines of those tasks, in the order of the list, and every requested field
  is the conversion of the arrays that those tasks returned for it, in the order of the list
  (a field requested several times is appended to once for each request).
\<close>

theorem file_limit_and_selection:
  assumes "listdir env folder_path = Inr names"
  shows "(0 \<le> k \<longrightarrow>
            select_files env folder_path (Some k) None =
              Inr (take (nat k) (npz_files folder_path names))
          \<and> int (length (take (nat k) (npz_files folder_path names))) \<le> k
          \<and> load_variables_from_npz env folder_path variable_names num_workers (Some k) None =
             load_variables_from_npz env folder_path variable_names num_workers None
               (Some (take (nat k) (npz_files folder_path names))))
       \<and> select_files env folder_path num_files (Some sel) = Inr sel
       \<and> load_variables_from_npz env folder_path variable_names num_workers num_files (Some sel) =
          load_variables_from_npz env folder_path variable_names num_workers None (Some sel)
       \<and> (1 \<le> pool_size env num_workers \<longrightarrow>
            (\<exists>lines table.
               load_variables_from_npz env folder_path variable_names num_workers num_files
                 (Some sel) =
                 Inr (concat (map (\<lambda>file. fst (load_variables env (file, variable_names))) sel)
                        @ lines, table)
             \<and> dom table = set variable_names
             \<and> (\<forall>var \<in> set variable_names.
                  table var =
                    Some (snd (convert_column env var
                      (concat (map (\<lambda>file. concat (replicate (count_list variable_names var)
                         (present (snd (load_variables env (file, variable_names))) var)))
                         sel)))))))"
proof -
  have a1: "select_files env folder_path (Some k) None =
              Inr (take (nat k) (npz_files folder_path names))" if "0 \<le> k"
    using assms that by (simp add: select_files_def slice_to_def)
  have a2: "int (length (take (nat k) (npz_files folder_path names))) \<le> k" if "0 \<le> k"
    using that by simp
  have b: "load_variables_from_npz env folder_path variable_names num_workers (Some k) None =
             load_variables_from_npz env folder_path variable_names num_workers None
               (Some (take (nat k) (npz_files folder_path names)))" if "0 \<le> k"
    using assms that by (rule load_limit)
  have c: "select_files env folder_path num_files (Some sel) = Inr sel"
    using assms by (rule select_files_selected)
  have d: "load_variables_from_npz env folder_path variable_names num_workers num_files (Some sel) =
          load_variables_from_npz env folder_path variable_names num_workers None (Some sel)"
    using assms by (simp add: select_files_def load_variables_from_npz_def)
  have e: "\<exists>lines table.
               load_variables_from_npz env folder_path variable_names num_workers num_files
                 (Some sel) =
                 Inr (concat (map (\<lambda>file. fst (load_variables env (file, variable_names))) sel)
                        @ lines, table)
             \<and> dom table = set variable_names
             \<and> (\<forall>var \<in> set variable_names.
                  table var =
                    Some (snd (convert_column env var
                      (concat (map (\<lambda>file. concat (replicate (count_list variable_names var)
                         (present (snd (load_variables env (file, variable_names))) var)))
                         sel)))))"
    if "1 \<le> pool_size env num_workers"
    using c that by (rule load_closed)
  show ?thesis
    by (intro conjI impI) (erule a1, erule a2, erule b, rule c, rule d, erule e)
qed

theorem file_limit_and_selection_witness:
  "select_files demo_env ''data'' (Some 2) None = Inr [''data/a.npz'', ''data/b.npz'']
   \<and> load_variables_from_npz demo_env ''data'' [''is_cc''] 28 (Some 2) None =
       load_variables_from_npz demo_env ''data'' [''is_cc''] 28 None
         (Some [''data/a.npz'', ''data/b.npz''])
   \<and> select_files demo_env ''data'' (Some 1) (Some [''data/c.npz'', ''data/a.npz'']) =
       Inr [''data/c.npz'', ''data/a.npz'']
   \<and> (\<exists>lines table.
         load_variables_from_npz demo_env ''data'' [''is_cc''] 28 (Some 1)
           (Some [''data/c.npz'', ''data/a.npz'']) =
           Inr (''Error loading data/c.npz: File is not a zip file'' # lines, table)
       \<and> table ''is_cc'' = Some (Uniform \<lparr>shape = [1], dtype = Float32, cells = [1]\<rparr>))"
proof -
  note t = file_limit_and_selection [OF demo_listdir, of 2 "[''is_cc'']" 28 "Some 1"
      "[''data/c.npz'', ''data/a.npz'']"]
  have f: "npz_files ''data'' [''a.npz'', ''notes.txt'', ''b.npz'', ''c.npz''] =
           [''data/a.npz'', ''data/b.npz'', ''data/c.npz'']"
    by (simp add: npz_files_def endswith_def path_join_def)
  have a: "select_files demo_env ''data'' (Some 2) None = Inr [''data/a.npz'', ''data/b.npz'']"
    and b: "load_variables_from_npz demo_env ''data'' [''is_cc''] 28 (Some 2) None =
       load_variables_from_npz demo_env ''data'' [''is_cc''] 28 None
         (Some [''data/a.npz'', ''data/b.npz''])"
    and c: "select_files demo_env ''data'' (Some 1) (Some [''data/c.npz'', ''data/a.npz'']) =
       Inr [''data/c.npz'', ''data/a.npz'']"
    using t [THEN conjunct1] t [THEN conjunct2, THEN conjunct1] unfolding f by simp_all
  from t [THEN conjunct2, THEN conjunct2, THEN conjunct2, THEN mp, OF demo_pool]
  obtain lines table where
    l: "load_variables_from_npz demo_env ''data'' [''is_cc''] 28 (Some 1)
           (Some [''data/c.npz'', ''data/a.npz'']) =
        Inr (concat (map (\<lambda>file. fst (load_variables demo_env (file, [''is_cc''])))
               [''data/c.npz'', ''data/a.npz'']) @ lines, table)"
    and v: "\<forall>var \<in> set [''is_cc''].
              table var =
                Some (snd (convert_column demo_env var
                  (concat (map (\<lambda>file. concat (replicate (count_list [''is_cc''] var)
                     (present (snd (load_variables demo_env (file, [''is_cc'']))) var)))
                     [''data/c.npz'', ''data/a.npz'']))))"
    by (elim exE conjE)
  have p: "concat (map (\<lambda>file. fst (load_variables demo_env (file, [''is_cc''])))
               [''data/c.npz'', ''data/a.npz'']) =
           [''Error loading data/c.npz: File is not a zip file'']"
    by (simp add: load_variables_def demo_load load_error_line_def archive_a_def)
  have x: "concat (map (\<lambda>file. concat (replicate (count_list [''is_cc''] ''is_cc'')
                     (present (snd (load_variables demo_env (file, [''is_cc'']))) ''is_cc'')))
                     [''data/c.npz'', ''data/a.npz'']) =
           [\<lparr>shape = [], dtype = Int64, cells = [1]\<rparr>]"
    by (simp add: demo_entries archive_a_def)
  have cv: "convert_column demo_env ''is_cc'' [\<lparr>shape = [], dtype = Int64, cells = [1]\<rparr>] =
            ([], Uniform \<lparr>shape = [1], dtype = Float32, cells = [1]\<rparr>)"
    by (simp add: convert_column_def np_array_float32_def demo_env_def)
  have "table ''is_cc'' = Some (Uniform \<lparr>shape = [1], dtype = Float32, cells = [1]\<rparr>)"
    using v [THEN bspec, of "''is_cc''"] unfolding x cv by simp
  then show ?thesis
    using a b c l unfolding p by simp
qed

subsection \<open>What the loader raises\<close>

text \<open>
  Claim C9, as amended. With a positive worker count the loader raises exactly when the
  directory cannot be listed, and then raises that error. Otherwise it returns a table of
  the requested fields, whatever the files of its list do when they are opened and read:
  every file that fails is reported by its line, and when every file of the list fails,
  as when an explicit list holds no valid file, every requested field is empty.
\<close>

theorem raises_only_on_setup:
  assumes "1 \<le> num_workers"
  shows "(\<forall>e. listdir env folder_path = Inl e \<longrightarrow>
            load_variables_from_npz env folder_path variable_names num_workers num_files
              file_selected = Inl (OSError e))
       \<and> (\<forall>names. listdir env folder_path = Inr names \<longrightarrow>
            (\<exists>file_list lines table.
               select_files env folder_path num_files file_selected = Inr file_list
             \<and> (\<forall>sel. file_selected = Some sel \<longrightarrow> file_list = sel)
             \<and> load_variables_from_npz env folder_path variable_names num_workers num_files
                 file_selected = Inr (lines, table)
             \<and> dom table = set variable_names
             \<and> (\<forall>file \<in> set file_list. \<forall>e.
                  np_load env file = Inl e
                  \<or> (\<exists>data. np_load env file = Inr data
                       \<and> read_fields data variable_names = Inl e) \<longrightarrow>
                  load_error_line file e \<in> set lines)
             \<and> ((\<forall>file \<in> set file_list. \<exists>e.
                   np_load env file = Inl e
                   \<or> (\<exists>data. np_load env file = Inr data
                        \<and> read_fields data variable_names = Inl e)) \<longrightarrow>
                 (\<forall>var \<in> set variable_names. table var = Some (Ragged [])))))"
proof -
  have p: "1 \<le> pool_size env num_workers"
    using assms by (simp add: pool_size_def split: option.splits)
  have a: "load_variables_from_npz env folder_path variable_names num_workers num_files
              file_selected = Inl (OSError e)" if "listdir env folder_path = Inl e" for e
    using that by (simp add: load_variables_from_npz_def select_files_def)
  have b: "\<exists>file_list lines table.
               select_files env folder_path num_files file_selected = Inr file_list
             \<and> (\<forall>sel. file_selected = Some sel \<longrightarrow> file_list = sel)
             \<and> load_variables_from_npz env folder_path variable_names num_workers num_files
                 file_selected = Inr (lines, table)
             \<and> dom table = set variable_names
             \<and> (\<forall>file \<in> set file_list. \<forall>e.
                  np_load env file = Inl e
                  \<or> (\<exists>data. np_load env file = Inr data
                       \<and> read_fields data variable_names = Inl e) \<longrightarrow>
                  load_error_line file e \<in> set lines)
             \<and> ((\<forall>file \<in> set file_list. \<exists>e.
                   np_load env file = Inl e
                   \<or> (\<exists>data. np_load env file = Inr data
                        \<and> read_fields data variable_names = Inl e)) \<longrightarrow>
                 (\<forall>var \<in> set variable_names. table var = Some (Ragged [])))"
    if "listdir env folder_path = Inr names" for names
  proof -
    have "\<exists>files. select_files env folder_path num_files file_selected = Inr files"
      unfolding select_files_def Let_def using that by simp
    then obtain files where f: "select_files env folder_path num_files file_selected = Inr files" ..
    have s: "files = sel" if "file_selected = Some sel" for sel
      using f that select_files_selected [OF \<open>listdir env folder_path = Inr names\<close>, of num_files sel]
      by simp
    from load_closed [OF f p, of variable_names] obtain lines table where
      l: "load_variables_from_npz env folder_path variable_names num_workers num_files
            file_selected =
          Inr (concat (map (\<lambda>fl. fst (load_variables env (fl, variable_names))) files) @ lines,
               table)"
      and d: "dom table = set variable_names"
      and t: "\<forall>var \<in> set variable_names.
              table var =
                Some (snd (convert_column env var
                  (concat (map (\<lambda>fl. concat (replicate (count_list variable_names var)
                     (present (snd (load_variables env (fl, variable_names))) var))) files))))"
      by (elim exE conjE)
    have r: "load_error_line fl e
               \<in> set (concat (map (\<lambda>fl. fst (load_variables env (fl, variable_names))) files) @ lines)"
      if "fl \<in> set files"
        "np_load env fl = Inl e
         \<or> (\<exists>data. np_load env fl = Inr data \<and> read_fields data variable_names = Inl e)"
      for fl e
      using that(1) load_variables_failed [OF that(2)] by force
    have z: "table var = Some (Ragged [])"
      if all: "\<forall>fl \<in> set files. \<exists>e.
                   np_load env fl = Inl e
                   \<or> (\<exists>data. np_load env fl = Inr data
                        \<and> read_fields data variable_names = Inl e)"
        and var: "var \<in> set variable_names" for var
    proof -
      have "present (snd (load_variables env (fl, variable_names))) var = []"
        if "fl \<in> set files" for fl
      proof -
        from all that obtain e where
          "np_load env fl = Inl e
           \<or> (\<exists>data. np_load env fl = Inr data \<and> read_fields data variable_names = Inl e)"
          by blast
        from load_variables_failed [OF this] show ?thesis
          by (simp add: all_none_apply)
      qed
      then have e: "concat (map (\<lambda>fl. concat (replicate (count_list variable_names var)
                     (present (snd (load_variables env (fl, variable_names))) var))) files) = []"
        by simp
      show ?thesis
        using t [THEN bspec, OF var] unfolding e by (simp add: convert_column_empty)
    qed
    show ?thesis
    proof (intro exI conjI allI ballI impI)
      show "select_files env folder_path num_files file_selected = Inr files" by (rule f)
      show "files = sel" if "file_selected = Some sel" for sel using that by (rule s)
      show "load_variables_from_npz env folder_path variable_names num_workers num_files
              file_selected =
            Inr (concat (map (\<lambda>fl. fst (load_variables env (fl, variable_names))) files) @ lines,
                 table)" by (rule l)
      show "dom table = set variable_names" by (rule d)
      show "load_error_line fl e
               \<in> set (concat (map (\<lambda>fl. fst (load_variables env (fl, variable_names))) files) @ lines)"
        if "fl \<in> set files"
          "np_load env fl = Inl e
           \<or> (\<exists>data. np_load env fl = Inr data \<and> read_fields data variable_names = Inl e)"
        for fl e
        using that by (rule r)
      show "table var = Some (Ragged [])"
        if "\<forall>fl \<in> set files. \<exists>e.
                   np_load env fl = Inl e
                   \<or> (\<exists>data. np_load env fl = Inr data
                        \<and> read_fields data variable_names = Inl e)"
          "var \<in> set variable_names" for var
        using that by (rule z)
    qed
  qed
  show ?thesis
  proof (intro conjI allI impI)
    show "load_variables_from_npz env folder_path variable_names num_workers num_files
              file_selected = Inl (OSError e)" if "listdir env folder_path = Inl e" for e
      using that by (rule a)
  next
    fix names
    assume "listdir env folder_path = Inr names"
    then show "\<exists>file_list lines table.
               select_files env folder_path num_files file_selected = Inr file_list
             \<and> (\<forall>sel. file_selected = Some sel \<longrightarrow> file_list = sel)
             \<and> load_variables_from_npz env folder_path variable_names num_workers num_files
                 file_selected = Inr (lines, table)
             \<and> dom table = set variable_names
             \<and> (\<forall>file \<in> set file_list. \<forall>e.
                  np_load env file = Inl e
                  \<or> (\<exists>data. np_load env file = Inr data
                       \<and> read_fields data variable_names = Inl e) \<longrightarrow>
                  load_error_line file e \<in> set lines)
             \<and> ((\<forall>file \<in> set file_list. \<exists>e.
                   np_load env file = Inl e
                   \<or> (\<exists>data. np_load env file = Inr data
                        \<and> read_fields data variable_names = Inl e)) \<longrightarrow>
                 (\<forall>var \<in> set variable_names. table var = Some (Ragged [])))"
      by (rule b)
  qed
qed

theorem raises_only_on_setup_witness:
  "load_variables_from_npz demo_env ''nowhere'' [''is_cc''] 28 None None =
     Inl (OSError ''No such file or directory'')
   \<and> (\<exists>lines table.
         load_variables_from_npz demo_env ''data'' [''is_cc''] 28 None (Some [''data/c.npz''])
           = Inr (lines, table)
       \<and> ''Error loading data/c.npz: File is not a zip file'' \<in> set lines
       \<and> table ''is_cc'' = Some (Ragged []))"
proof -
  have w: "(1::int) \<le> 28" by simp
  have "listdir demo_env ''nowhere'' = Inl ''No such file or directory''"
    by (simp add: demo_env_def)
  with raises_only_on_setup [OF w, of demo_env "''nowhere''" "[''is_cc'']" None None,
      THEN conjunct1, THEN spec, of "''No such file or directory''"]
  have a: "load_variables_from_npz demo_env ''nowhere'' [''is_cc''] 28 None None =
     Inl (OSError ''No such file or directory'')" by simp
  from raises_only_on_setup [OF w, of demo_env "''data''" "[''is_cc'']" None "Some [''data/c.npz'']",
      THEN conjunct2, THEN spec, THEN mp, OF demo_listdir]
  obtain file_list lines table where
    s: "\<forall>sel. Some [''data/c.npz''] = Some sel \<longrightarrow> file_list = sel"
    and l: "load_variables_from_npz demo_env ''data'' [''is_cc''] 28 None (Some [''data/c.npz''])
           = Inr (lines, table)"
    and r: "\<forall>fl \<in> set file_list. \<forall>e.
                  np_load demo_env fl = Inl e
                  \<or> (\<exists>data. np_load demo_env fl = Inr data
                       \<and> read_fields data [''is_cc''] = Inl e) \<longrightarrow>
                  load_error_line fl e \<in> set lines"
    and z: "(\<forall>fl \<in> set file_list. \<exists>e.
                   np_load demo_env fl = Inl e
                   \<or> (\<exists>data. np_load demo_env fl = Inr data
                        \<and> read_fields data [''is_cc''] = Inl e)) \<longrightarrow>
                 (\<forall>var \<in> set [''is_cc'']. table var = Some (Ragged []))"
    by (elim exE conjE)
  have fl: "file_list = [''data/c.npz'']" using s by simp
  have "''Error loading data/c.npz: File is not a zip file'' \<in> set lines"
    using r unfolding fl by (simp add: demo_load load_error_line_def)
  moreover have "table ''is_cc'' = Some (Ragged [])"
    using z unfolding fl by (simp add: demo_load)
  ultimately show ?thesis using a l by simp
qed

text \<open>
  Claim C9 as stated has the loader raise when an explicit list holds no valid file. With the
  empty list, and with a list whose only file cannot be opened, the loader returns a table
  whose column is empty.
\<close>

theorem no_valid_file_counterexample:
  "load_variables_from_npz demo_env ''data'' [''is_cc''] 28 None (Some []) =
     Inr ([], [''is_cc'' \<mapsto> Ragged []])
   \<and> load_variables_from_npz demo_env ''data'' [''is_cc''] 28 None (Some [''data/c.npz'']) =
     Inr ([''Error loading data/c.npz: File is not a zip file''], [''is_cc'' \<mapsto> Ragged []])"
proof -
  have t: "(\<lambda>var. map_option (\<lambda>xs. snd (convert_column demo_env var xs))
             (if var \<in> set [''is_cc''] then Some [] else None)) = [''is_cc'' \<mapsto> Ragged []]"
    by (auto simp: fun_eq_iff convert_column_empty)
  have g0: "snd (gather demo_env [''is_cc''] []) =
            Inr (\<lambda>v. if v \<in> set [''is_cc''] then Some [] else None)"
    using gather_distinct [of "[''is_cc'']" demo_env "[]"] by (simp cong: if_cong)
  have g1: "snd (gather demo_env [''is_cc''] [''data/c.npz'']) =
            Inr (\<lambda>v. if v \<in> set [''is_cc''] then Some [] else None)"
    using gather_distinct [of "[''is_cc'']" demo_env "[''data/c.npz'']"]
    by (simp add: demo_entries cong: if_cong)
  have c: "fst (convert_dict demo_env (dict_keys [''is_cc''])
             (\<lambda>v. if v \<in> set [''is_cc''] then Some [] else None)) = []"
    by (simp add: convert_dict_def convert_column_empty)
  have f0: "fst (gather demo_env [''is_cc''] []) = []"
    by (simp add: gather_def)
  have f1: "fst (gather demo_env [''is_cc''] [''data/c.npz'']) =
            [''Error loading data/c.npz: File is not a zip file'']"
    by (simp add: gather_def load_variables_def demo_load load_error_line_def)
  show ?thesis
    using load_ok [OF select_files_selected [OF demo_listdir] demo_pool g0, of None]
      load_ok [OF select_files_selected [OF demo_listdir] demo_pool g1, of None]
    unfolding t c f0 f1 by simp
qed

end
